theory Spec2Isabelle
  imports Complex_Main "HOL-Library.Product_Lexorder" "HOL-Library.List_Lexorder"
    "HOL-Library.Char_ord" "HOL-Library.Multiset" "HOL-Library.Log_Nat"
begin

section \<open>Python strings\<close>

text \<open>
  File and column names are ASCII strings. \<open>str.upper\<close> is modelled on ASCII letters
  (a character outside a..z is left as it is), \<open>str.endswith\<close>, \<open>str.split\<close> with a
  one-character separator, \<open>str.replace\<close> with a non-empty pattern and
  \<open>os.path.basename\<close> (POSIX: what follows the last slash) as Python defines them.
\<close>

definition upper_char :: "char \<Rightarrow> char" where
  "upper_char c =
     (if (97::nat) \<le> of_char c \<and> of_char c \<le> (122::nat)
      then char_of (of_char c - (32::nat)) else c)"

definition upper :: "string \<Rightarrow> string" where
  "upper s = map upper_char s"

definition endswith :: "string \<Rightarrow> string \<Rightarrow> bool" where
  "endswith s suf \<longleftrightarrow> length suf \<le> length s \<and> drop (length s - length suf) s = suf"

fun split :: "char \<Rightarrow> string \<Rightarrow> string list" where
  "split sep [] = [[]]"
| "split sep (c # cs) =
     (if c = sep then [] # split sep cs
      else (case split sep cs of [] \<Rightarrow> [[c]] | w # ws \<Rightarrow> (c # w) # ws))"

definition basename :: "string \<Rightarrow> string" where
  "basename p = rev (takeWhile (\<lambda>c. c \<noteq> CHR ''/'') (rev p))"

function replace :: "string \<Rightarrow> string \<Rightarrow> string \<Rightarrow> string" where
  "replace old new [] = []"
| "replace old new (c # cs) =
     (if old \<noteq> [] \<and> take (length old) (c # cs) = old
      then new @ replace old new (drop (length old) (c # cs))
      else c # replace old new cs)"
  by pat_completeness auto
termination
  by (relation "measure (\<lambda>(old, new, s). length s)") auto

section \<open>Frames as read from the CSV files\<close>

text \<open>
  A cell of a CSV file is missing, text or a number. A frame is the ordered list of its
  named columns, as \<open>pd.read_csv\<close> returns it; all columns of a frame have the same
  length. A number is a float64, given by its value: a real number that float64
  represents exactly. An infinity or a negative zero in a file is outside the model.
\<close>

datatype cell = Null | Txt string | Num real

type_synonym frame = "(string \<times> cell list) list"

definition is_text :: "cell \<Rightarrow> bool" where
  "is_text c = (case c of Txt _ \<Rightarrow> True | _ \<Rightarrow> False)"

datatype error =
    ReadError | IndexError | KeyError | ValueError
  | MergeError | ParseError | NoDataLoaded | TypeError | StreamlitAPIException

definition names :: "frame \<Rightarrow> string list" where
  "names f = map fst f"

text \<open>\<open>df.rename(columns={old: new})\<close>: every column named \<open>old\<close> is renamed.\<close>

definition rename :: "string \<Rightarrow> string \<Rightarrow> frame \<Rightarrow> frame" where
  "rename old new f = map (\<lambda>(n, xs). (if n = old then new else n, xs)) f"

text \<open>
  \<open>df[[l1, l2]]\<close>: for each label in turn, every column carrying it; KeyError when a
  label names no column.
\<close>

definition select :: "string list \<Rightarrow> frame \<Rightarrow> error + frame" where
  "select labels f =
     (if \<exists>l \<in> set labels. l \<notin> set (names f) then Inl KeyError
      else Inr (concat (map (\<lambda>l. filter (\<lambda>c. fst c = l) f) labels)))"

text \<open>
  A table keyed on \<open>Datetime\<close>: the names of its other columns, and its rows as the key
  cell with the cells of the other columns. The two-column frame
  \<open>['Datetime', '<REGION>_MW']\<close> of one source file and every merged frame have this form.
\<close>

record table =
  cols :: "string list"
  rws :: "(cell \<times> cell list) list"

section \<open>load_data: canonicalizing one file (lines 44 to 64)\<close>

text \<open>Lines 50 to 54: the column names are fixed by position or by the suffix.\<close>

definition fix_columns :: "frame \<Rightarrow> frame" where
  "fix_columns temp_df =
     (if length temp_df = 2
      then map2 (\<lambda>n c. (n, snd c)) [''Datetime'', ''MW''] temp_df
      else (case find (\<lambda>col. endswith col ''_MW'') (names temp_df) of
              Some mw_col \<Rightarrow> rename mw_col ''MW'' temp_df
            | None \<Rightarrow> temp_df))"

text \<open>Line 57.\<close>

definition region_of :: "string \<Rightarrow> string" where
  "region_of file = upper (hd (split CHR ''_'' (basename file)))"

text \<open>
  Lines 60 to 62. \<open>temp_df.columns[1]\<close> raises IndexError on a frame with fewer than two
  columns; the selection raises KeyError; assigning two names to a selection that does
  not have exactly two columns raises ValueError.
\<close>

definition canonicalize :: "string \<Rightarrow> frame \<Rightarrow> error + table" where
  "canonicalize file df0 =
     (let temp_df = fix_columns df0;
          region = region_of file
      in if ''MW'' \<notin> set (names temp_df) \<and> length temp_df < 2 then Inl IndexError
         else
           (let mw_col = (if ''MW'' \<in> set (names temp_df) then ''MW''
                          else fst (temp_df ! 1))
            in case select [''Datetime'', mw_col] temp_df of
                 Inl e \<Rightarrow> Inl e
               | Inr [(_, ks), (_, vs)] \<Rightarrow>
                   Inr \<lparr>cols = [region @ ''_MW''], rws = zip ks (map (\<lambda>v. [v]) vs)\<rparr>
               | Inr _ \<Rightarrow> Inl ValueError))"

text \<open>
  The loop of lines 41 to 67 over the files found by \<open>glob\<close>, each given with what
  \<open>pd.read_csv\<close> makes of it (\<open>None\<close> when reading raises). Any exception skips the file
  with a warning; the result is the list \<open>dfs\<close> and the warnings.
\<close>

definition try_load :: "string \<times> frame option \<Rightarrow> error + table" where
  "try_load src =
     (case snd src of None \<Rightarrow> Inl ReadError | Some f \<Rightarrow> canonicalize (fst src) f)"

fun load_files :: "(string \<times> frame option) list \<Rightarrow> table list \<times> (string \<times> error) list" where
  "load_files [] = ([], [])"
| "load_files (src # rest) =
     (let (dfs, warnings) = load_files rest
      in case try_load src of
           Inr t \<Rightarrow> (t # dfs, warnings)
         | Inl e \<Rightarrow> (dfs, (fst src, e) # warnings))"

section \<open>load_data: the outer join (lines 73 to 79)\<close>

text \<open>
  \<open>pd.merge(df, other_df, on='Datetime', how='outer')\<close>. A column name that both
  frames have gets the suffixes \<open>_x\<close> and \<open>_y\<close>; pandas raises MergeError when a suffixed
  name repeats a name of the same frame.
\<close>

definition suffixed :: "string list \<Rightarrow> string list \<Rightarrow> string \<Rightarrow> string list" where
  "suffixed own other suf = map (\<lambda>c. if c \<in> set other then c @ suf else c) own"

definition new_dups :: "string list \<Rightarrow> string list \<Rightarrow> string list" where
  "new_dups labels orig =
     map (\<lambda>i. labels ! i)
       (filter (\<lambda>i. labels ! i \<in> set (take i labels) \<and> orig ! i \<notin> set (take i orig))
          [0..<length labels])"

definition merge_names :: "string list \<Rightarrow> string list \<Rightarrow> error + string list" where
  "merge_names lcols rcols =
     (let llabels = suffixed lcols rcols ''_x'';
          rlabels = suffixed rcols lcols ''_y''
      in if new_dups llabels lcols @ new_dups rlabels rcols \<noteq> [] then Inl MergeError
         else Inr (llabels @ rlabels))"

text \<open>
  The rows of an outer join come sorted by key. Numbers are ordered by value, text as
  Python orders strings (character by character by code point, a prefix before a longer
  string), numbers before text, and a missing key last.
\<close>

definition sort_rank :: "cell \<Rightarrow> nat \<times> real \<times> string" where
  "sort_rank k = (case k of Num x \<Rightarrow> (0, x, []) | Txt s \<Rightarrow> (1, 0, s) | Null \<Rightarrow> (2, 0, []))"

text \<open>
  For each key of either frame, in that order: every left row of the key is joined with
  every right row of the key, the left row varying slowest; where one frame has no row
  of the key, the rows of the other are padded with nulls. Missing keys match each
  other.
\<close>

definition merge_rows ::
  "nat \<Rightarrow> nat \<Rightarrow> (cell \<times> cell list) list \<Rightarrow> (cell \<times> cell list) list \<Rightarrow> (cell \<times> cell list) list"
where
  "merge_rows nl nr l r =
     concat (map (\<lambda>k.
                (let ls = filter (\<lambda>m. fst m = k) l;
                     rs = filter (\<lambda>m. fst m = k) r
                 in if rs = [] then map (\<lambda>m. (k, snd m @ replicate nr Null)) ls
                    else if ls = [] then map (\<lambda>m. (k, replicate nl Null @ snd m)) rs
                    else concat (map (\<lambda>m. map (\<lambda>m'. (k, snd m @ snd m')) rs) ls)))
             (sort_key sort_rank (remdups (map fst l @ map fst r))))"

text \<open>
  A key column that holds text has dtype object, any other key column is numeric.
  pandas refuses with ValueError to join a text key column with a numeric one, unless
  one of the two frames has no rows. The key columns are checked before the names.
\<close>

definition text_keys :: "table \<Rightarrow> bool" where
  "text_keys t \<longleftrightarrow> (\<exists>k \<in> set (map fst (rws t)). is_text k)"

definition merge :: "table \<Rightarrow> table \<Rightarrow> error + table" where
  "merge df other_df =
     (if rws df \<noteq> [] \<and> rws other_df \<noteq> [] \<and> text_keys df \<noteq> text_keys other_df
      then Inl ValueError
      else (case merge_names (cols df) (cols other_df) of
              Inl e \<Rightarrow> Inl e
            | Inr cs \<Rightarrow>
                Inr \<lparr>cols = cs,
                     rws = merge_rows (length (cols df)) (length (cols other_df))
                             (rws df) (rws other_df)\<rparr>))"

fun merge_all :: "table \<Rightarrow> table list \<Rightarrow> error + table" where
  "merge_all df [] = Inr df"
| "merge_all df (other_df # rest) =
     (case merge df other_df of Inl e \<Rightarrow> Inl e | Inr df' \<Rightarrow> merge_all df' rest)"

section \<open>load_data: the calendar columns (lines 82 to 87)\<close>

text \<open>
  A parsed timestamp. \<open>pd.to_datetime\<close> is a parameter of the model: a function from a
  cell of the \<open>Datetime\<close> column that is not missing to a timestamp, \<open>None\<close> where pandas
  raises. A missing cell becomes NaT and nothing is raised. The columns \<open>Hour\<close>,
  \<open>Date\<close>, \<open>Month\<close>, \<open>Year\<close> and \<open>Day_of_week\<close> are written once from \<open>Datetime\<close> and
  never changed: they are functions of the row's timestamp. A date is the triple
  (year, month, day), ordered lexicographically as \<open>datetime.date\<close> is.
\<close>

record datetime =
  year :: int
  month :: nat
  day :: nat
  hour :: nat
  minute :: nat
  second :: nat

type_synonym date = "int \<times> nat \<times> nat"

text \<open>Days since 1970-01-01 in the proleptic Gregorian calendar; that day was a Thursday.\<close>

definition days_from_civil :: "int \<Rightarrow> nat \<Rightarrow> nat \<Rightarrow> int" where
  "days_from_civil y m d =
     (let y' = (if m \<le> 2 then y - 1 else y);
          era = y' div 400;
          yoe = y' - era * 400;
          mp = (if m > 2 then int m - 3 else int m + 9);
          doy = (153 * mp + 2) div 5 + int d - 1;
          doe = yoe * 365 + yoe div 4 - yoe div 100 + doy
      in era * 146097 + doe - 719468)"

definition dayofweek :: "datetime \<Rightarrow> nat" where
  "dayofweek t = nat ((days_from_civil (year t) (month t) (day t) + 3) mod 7)"

text \<open>
  A row of the merged frame: its timestamp and the cells of the value columns, one for
  each name of \<open>vcols\<close>, in that order. The rows whose timestamp is NaT are kept apart
  in \<open>undated\<close>, each with the cells of its value columns: their calendar columns are
  missing, and since no comparison of NaT with a date holds, they never pass a date
  filter.
\<close>

record nrow =
  Datetime :: datetime
  vals :: "cell list"

record dataframe =
  vcols :: "string list"
  rows :: "nrow list"
  undated :: "cell list list"

definition Hour :: "nrow \<Rightarrow> nat" where
  "Hour r = hour (Datetime r)"

definition Date :: "nrow \<Rightarrow> date" where
  "Date r = (year (Datetime r), month (Datetime r), day (Datetime r))"

definition Month :: "nrow \<Rightarrow> nat" where
  "Month r = month (Datetime r)"

definition Year :: "nrow \<Rightarrow> int" where
  "Year r = year (Datetime r)"

definition Day_of_week :: "nrow \<Rightarrow> nat" where
  "Day_of_week r = dayofweek (Datetime r)"

definition columns :: "dataframe \<Rightarrow> string list" where
  "columns df =
     ''Datetime'' # vcols df @ [''Hour'', ''Date'', ''Month'', ''Year'', ''Day_of_week'']"

fun parse_rows :: "(cell \<Rightarrow> datetime option) \<Rightarrow> (cell \<times> cell list) list \<Rightarrow> error + nrow list" where
  "parse_rows to_datetime [] = Inr []"
| "parse_rows to_datetime ((k, vs) # rest) =
     (case to_datetime k of
        None \<Rightarrow> Inl ParseError
      | Some t \<Rightarrow>
          (case parse_rows to_datetime rest of
             Inl e \<Rightarrow> Inl e
           | Inr rs \<Rightarrow> Inr (\<lparr>Datetime = t, vals = vs\<rparr> # rs)))"

text \<open>
  load_data. No frame loaded: \<open>st.error\<close> and \<open>st.stop()\<close>, the terminal error
  NoDataLoaded. The merge and \<open>pd.to_datetime\<close> are outside the \<open>try\<close> of the loop: an
  exception there ends load_data.
\<close>

definition load_data ::
  "(cell \<Rightarrow> datetime option) \<Rightarrow> (string \<times> frame option) list \<Rightarrow> error + dataframe"
where
  "load_data to_datetime data_files =
     (case fst (load_files data_files) of
        [] \<Rightarrow> Inl NoDataLoaded
      | df0 # others \<Rightarrow>
          (case merge_all df0 others of
             Inl e \<Rightarrow> Inl e
           | Inr df \<Rightarrow>
               (case parse_rows to_datetime (filter (\<lambda>m. fst m \<noteq> Null) (rws df)) of
                  Inl e \<Rightarrow> Inl e
                | Inr rs \<Rightarrow>
                    Inr \<lparr>vcols = cols df, rows = rs,
                         undated = map snd (filter (\<lambda>m. fst m = Null) (rws df))\<rparr>)))"

text \<open>
  One format that \<open>pd.to_datetime\<close> reads, the one of the PJM files:
  \<open>YYYY-MM-DD HH:MM:SS\<close>. It serves as the parser in the examples.
\<close>

definition digit :: "char \<Rightarrow> nat option" where
  "digit c =
     (if (48::nat) \<le> of_char c \<and> of_char c \<le> (57::nat) then Some (of_char c - 48) else None)"

fun number :: "nat \<Rightarrow> string \<Rightarrow> nat option" where
  "number acc [] = Some acc"
| "number acc (c # cs) =
     (case digit c of None \<Rightarrow> None | Some d \<Rightarrow> number (10 * acc + d) cs)"

definition iso_datetime :: "cell \<Rightarrow> datetime option" where
  "iso_datetime c =
     (case c of
        Txt s \<Rightarrow>
          (if length s = 19 \<and> s ! 4 = CHR ''-'' \<and> s ! 7 = CHR ''-'' \<and> s ! 10 = CHR '' ''
                \<and> s ! 13 = CHR '':'' \<and> s ! 16 = CHR '':''
           then (case (number 0 (take 4 s), number 0 (take 2 (drop 5 s)),
                       number 0 (take 2 (drop 8 s)), number 0 (take 2 (drop 11 s)),
                       number 0 (take 2 (drop 14 s)), number 0 (take 2 (drop 17 s))) of
                   (Some y, Some m, Some d, Some h, Some mi, Some se) \<Rightarrow>
                     (if 1 \<le> m \<and> m \<le> 12 \<and> 1 \<le> d \<and> d \<le> 31 \<and> h < 24 \<and> mi < 60 \<and> se < 60
                      then Some \<lparr>year = int y, month = m, day = d,
                                 hour = h, minute = mi, second = se\<rparr>
                      else None)
                 | _ \<Rightarrow> None)
           else None)
      | _ \<Rightarrow> None)"

section \<open>get_selected_region (lines 92 to 104)\<close>

text \<open>
  The select box offers \<open>regions\<close> and starts at index 0; \<open>choice\<close> is the index of the
  option the widget returns, one of those offered. With nothing to offer the widget
  returns \<open>None\<close>, which the format string prints as \<open>None\<close>.
\<close>

definition region_columns :: "dataframe \<Rightarrow> string list" where
  "region_columns df = filter (\<lambda>col. endswith col ''_MW'') (columns df)"

definition regions :: "dataframe \<Rightarrow> string list" where
  "regions df = map (replace ''_MW'' []) (region_columns df)"

definition get_selected_region :: "dataframe \<Rightarrow> nat \<Rightarrow> string" where
  "get_selected_region df choice =
     (if regions df = [] then ''None'' else regions df ! choice) @ ''_MW''"

section \<open>The date range and the date filter (lines 116 to 124)\<close>

text \<open>
  Lines 116 to 120. The two date widgets are bounded by the least and the greatest
  \<open>Date\<close> of the frame. A frame without a dated row has no least date: the minimum is
  NaN, which \<open>st.date_input\<close> refuses. Beside dated rows, a row whose timestamp is NaT
  puts NaT into the \<open>Date\<close> column, whose minimum then compares a date with a float, and
  makes the calendar columns floats, which line 214 uses as list indices: a TypeError
  either way.
\<close>

definition date_range :: "dataframe \<Rightarrow> error + date \<times> date" where
  "date_range df =
     (if rows df = [] then Inl StreamlitAPIException
      else if undated df \<noteq> [] then Inl TypeError
      else Inr (Min (set (map Date (rows df))), Max (set (map Date (rows df)))))"

text \<open>
  Lines 122 to 124. \<open>start_date\<close> and \<open>end_date\<close> are what the two widgets return: each
  a date between the two bounds, in either order.
\<close>

definition filtered_df :: "dataframe \<Rightarrow> date \<Rightarrow> date \<Rightarrow> nrow list" where
  "filtered_df df start_date end_date =
     filter (\<lambda>r. Date r \<ge> start_date \<and> Date r \<le> end_date) (rows df)"

section \<open>float64 arithmetic\<close>

text \<open>
  A float64 result: a finite number, NaN or an infinity. There is one zero: the sign of
  a float zero is not modelled. An operation on finite numbers gives the exact result
  rounded to the nearest float64, to the even one of two nearest: 53 significant bits
  down to the exponent -1022, multiples of \<open>2^-1074\<close> below it, and an infinity from
  \<open>2^1024\<close> on. \<open>exponent x\<close> is the integer part of the binary logarithm of a positive
  \<open>x\<close>.
\<close>

datatype fval = Fin real | NaN | PInf | NInf

definition round_half_even :: "real \<Rightarrow> int" where
  "round_half_even x =
     (let f = \<lfloor>x\<rfloor>; d = x - of_int f
      in if d < 1 / 2 then f else if 1 / 2 < d then f + 1 else if even f then f else f + 1)"

definition exponent :: "real \<Rightarrow> int" where
  "exponent x =
     (if 1 \<le> x then int (floorlog 2 (nat \<lfloor>x\<rfloor>)) - 1
      else - int (floorlog 2 (nat (\<lceil>1 / x\<rceil> - 1))))"

definition pow2 :: "int \<Rightarrow> real" where
  "pow2 q = (if 0 \<le> q then 2 ^ nat q else 1 / 2 ^ nat (- q))"

definition round64 :: "real \<Rightarrow> fval" where
  "round64 x =
     (if x = 0 then Fin 0
      else (let q = max (exponent \<bar>x\<bar>) (- 1022) - 52;
                y = of_int (round_half_even (\<bar>x\<bar> / pow2 q)) * pow2 q
            in if 2 ^ 1024 \<le> y then (if 0 < x then PInf else NInf)
               else Fin (if 0 < x then y else - y)))"

text \<open>
  Addition, division and multiplication follow numpy, which warns and does not raise on
  a zero divisor. A zero divisor counts as positive: the only divisor that can be zero
  here is the peak, one of the values read, and no value read is a negative zero.
\<close>

fun fadd :: "fval \<Rightarrow> fval \<Rightarrow> fval" where
  "fadd (Fin a) (Fin b) = round64 (a + b)"
| "fadd NaN _ = NaN"
| "fadd _ NaN = NaN"
| "fadd PInf NInf = NaN"
| "fadd NInf PInf = NaN"
| "fadd PInf _ = PInf"
| "fadd _ PInf = PInf"
| "fadd NInf _ = NInf"
| "fadd _ NInf = NInf"

fun fdiv :: "fval \<Rightarrow> fval \<Rightarrow> fval" where
  "fdiv (Fin a) (Fin b) =
     (if b \<noteq> 0 then round64 (a / b)
      else if a = 0 then NaN else if a > 0 then PInf else NInf)"
| "fdiv NaN _ = NaN"
| "fdiv _ NaN = NaN"
| "fdiv (Fin a) _ = Fin 0"
| "fdiv PInf (Fin b) = (if b \<ge> 0 then PInf else NInf)"
| "fdiv NInf (Fin b) = (if b \<ge> 0 then NInf else PInf)"
| "fdiv _ _ = NaN"

fun fmul :: "fval \<Rightarrow> fval \<Rightarrow> fval" where
  "fmul (Fin a) (Fin b) = round64 (a * b)"
| "fmul NaN _ = NaN"
| "fmul _ NaN = NaN"
| "fmul (Fin a) PInf = (if a = 0 then NaN else if a > 0 then PInf else NInf)"
| "fmul (Fin a) NInf = (if a = 0 then NaN else if a > 0 then NInf else PInf)"
| "fmul PInf (Fin b) = (if b = 0 then NaN else if b > 0 then PInf else NInf)"
| "fmul NInf (Fin b) = (if b = 0 then NaN else if b > 0 then NInf else PInf)"
| "fmul PInf PInf = PInf"
| "fmul NInf NInf = PInf"
| "fmul _ _ = NInf"

text \<open>The results that are not below zero: a number from zero up, or plus infinity.\<close>

definition not_negative :: "fval \<Rightarrow> bool" where
  "not_negative v = (case v of Fin a \<Rightarrow> 0 \<le> a | PInf \<Rightarrow> True | _ \<Rightarrow> False)"

section \<open>KPIs and aggregates (lines 129 to 237)\<close>

text \<open>
  A value column is a float64 column whose missing entries are NaN. \<open>Series.mean\<close>
  counts the entries that are present, puts zero for the missing ones, adds up and
  divides by the count; it gives NaN when nothing is present. The sum is taken from left
  to right, as numpy does for fewer than eight numbers; for more, numpy adds in blocks
  and the last digits of a sum can differ. \<open>Series.max\<close> skips the missing entries and
  gives NaN when nothing is left.
\<close>

definition mean :: "real option list \<Rightarrow> fval" where
  "mean xs =
     (let count = length (filter (\<lambda>x. x \<noteq> None) xs);
          the_sum = foldl fadd (Fin 0)
                      (map (\<lambda>x. case x of None \<Rightarrow> Fin 0 | Some v \<Rightarrow> Fin v) xs)
      in if count = 0 then NaN else fdiv the_sum (Fin (real count)))"

definition maximum :: "real option list \<Rightarrow> fval" where
  "maximum xs =
     (let ys = map the (filter (\<lambda>x. x \<noteq> None) xs)
      in if ys = [] then NaN else Fin (fold max (tl ys) (hd ys)))"

text \<open>
  \<open>df[selected_column]\<close>: the position of the column among the value columns (the
  selected name ends in \<open>_MW\<close>, so it is none of the other columns), KeyError when there
  is none. A row has a cell for every value column. Averaging a column that holds text
  raises TypeError.
\<close>

fun index_of :: "string \<Rightarrow> string list \<Rightarrow> nat option" where
  "index_of c [] = None"
| "index_of c (x # xs) = (if x = c then Some 0 else map_option Suc (index_of c xs))"

definition float_at :: "nat \<Rightarrow> nrow \<Rightarrow> real option" where
  "float_at i r = (case vals r ! i of Num x \<Rightarrow> Some x | _ \<Rightarrow> None)"

text \<open>
  \<open>groupby(key)\<close>: one group for each key value that occurs, in ascending order of the
  key, holding the rows with that key in their order. The mean of a group is taken by
  the same function as the mean of a column.
\<close>

definition groupby :: "(nrow \<Rightarrow> 'k::linorder) \<Rightarrow> nrow list \<Rightarrow> ('k \<times> nrow list) list" where
  "groupby key rs = map (\<lambda>k. (k, filter (\<lambda>r. key r = k) rs)) (sort (remdups (map key rs)))"

definition group_mean :: "nat \<Rightarrow> ('k \<times> nrow list) list \<Rightarrow> ('k \<times> fval) list" where
  "group_mean i gs = map (\<lambda>(k, g). (k, mean (map (float_at i) g))) gs"

definition dow_names :: "string list" where
  "dow_names =
     [''Monday'', ''Tuesday'', ''Wednesday'', ''Thursday'', ''Friday'', ''Saturday'', ''Sunday'']"

text \<open>
  What one run of the script computes after the filter: the three KPIs, the daily and
  hourly means, the values behind the monthly box plot, the day-of-week means with their
  day names, and the yearly means, computed only when the window has more than one year.
\<close>

record report =
  avg_consumption :: fval
  peak_consumption :: fval
  load_factor :: fval
  daily_consumption :: "(date \<times> fval) list"
  hourly_avg :: "(nat \<times> fval) list"
  monthly_box :: "(nat \<times> real option list) list"
  dow_avg :: "(nat \<times> fval \<times> string) list"
  yearly_avg :: "(int \<times> fval) list option"

definition kpis :: "nat \<Rightarrow> nrow list \<Rightarrow> report" where
  "kpis i filtered =
     (let avg = mean (map (float_at i) filtered);
          peak = maximum (map (float_at i) filtered);
          years = remdups (map Year filtered)
      in \<lparr>avg_consumption = avg,
          peak_consumption = peak,
          load_factor = fmul (fdiv avg peak) (Fin 100),
          daily_consumption = group_mean i (groupby Date filtered),
          hourly_avg = group_mean i (groupby Hour filtered),
          monthly_box = map (\<lambda>(k, g). (k, map (float_at i) g)) (groupby Month filtered),
          dow_avg = map (\<lambda>(x, m). (x, m, dow_names ! x))
                      (group_mean i (groupby Day_of_week filtered)),
          yearly_avg = (if length years > 1
                        then Some (group_mean i (groupby Year filtered)) else None)\<rparr>)"

definition dashboard :: "dataframe \<Rightarrow> string \<Rightarrow> date \<Rightarrow> date \<Rightarrow> error + report" where
  "dashboard df selected_column start_date end_date =
     (case date_range df of
        Inl e \<Rightarrow> Inl e
      | Inr (min_date, max_date) \<Rightarrow>
          (case index_of selected_column (vcols df) of
             None \<Rightarrow> Inl KeyError
           | Some i \<Rightarrow>
               if \<exists>r \<in> set (rows df). is_text (vals r ! i) then Inl TypeError
               else Inr (kpis i (filtered_df df start_date end_date))))"

section \<open>Example data\<close>

text \<open>Frames of source files, one for each way the columns are found.\<close>

definition pjm_frame :: frame where
  "pjm_frame =
     [(''Datetime'', [Txt ''2020-12-31 23:00:00'', Txt ''2021-01-01 00:00:00'',
                      Txt ''2021-01-01 01:00:00'']),
      (''PJM_MW'', [Num 80, Num 100, Num 120])]"

definition two_column_frame :: frame where
  "two_column_frame = [(''ts'', [Txt ''2021-01-01 00:00:00'']), (''value'', [Num 50])]"

definition suffix_frame :: frame where
  "suffix_frame =
     [(''temp'', [Num 3, Num 4]),
      (''Datetime'', [Txt ''2021-01-01 00:00:00'', Txt ''2021-01-01 01:00:00'']),
      (''DOM_MW'', [Num 70, Num 75]),
      (''Other_MW'', [Num 1, Num 2])]"

definition named_MW_frame :: frame where
  "named_MW_frame =
     [(''Datetime'', [Txt ''2021-01-01 00:00:00'']),
      (''temp'', [Num 1]),
      (''MW'', [Num 2])]"

definition positional_frame :: frame where
  "positional_frame =
     [(''Datetime'', [Txt ''2021-01-01 00:00:00'']),
      (''load'', [Num 90]),
      (''temp'', [Num 5])]"

definition no_Datetime_frame :: frame where
  "no_Datetime_frame =
     [(''when'', [Txt ''2021-01-01 00:00:00'']), (''a'', [Num 1]), (''b'', [Num 2])]"

text \<open>
  Three source files, the second of which cannot be canonicalized, and the frame
  load_data makes of them: one row at the end of 2020 in the first file only, and two
  rows one hour apart on 2021-01-01, the first of them in both files.
\<close>

definition example_files :: "(string \<times> frame option) list" where
  "example_files =
     [(''data/PJM_hourly.csv'', Some pjm_frame),
      (''data/broken_hourly.csv'', Some no_Datetime_frame),
      (''data/aep_hourly.csv'', Some two_column_frame)]"

definition example_df :: dataframe where
  "example_df =
     \<lparr>vcols = [''PJM_MW'', ''AEP_MW''],
      rows =
        [\<lparr>Datetime = \<lparr>year = 2020, month = 12, day = 31, hour = 23, minute = 0, second = 0\<rparr>,
          vals = [Num 80, Null]\<rparr>,
         \<lparr>Datetime = \<lparr>year = 2021, month = 1, day = 1, hour = 0, minute = 0, second = 0\<rparr>,
          vals = [Num 100, Num 50]\<rparr>,
         \<lparr>Datetime = \<lparr>year = 2021, month = 1, day = 1, hour = 1, minute = 0, second = 0\<rparr>,
          vals = [Num 120, Null]\<rparr>],
      undated = []\<rparr>"

text \<open>A frame with a single reading of zero.\<close>

definition zero_df :: dataframe where
  "zero_df =
     \<lparr>vcols = [''PJM_MW''],
      rows =
        [\<lparr>Datetime = \<lparr>year = 2021, month = 1, day = 1, hour = 0, minute = 0, second = 0\<rparr>,
          vals = [Num 0]\<rparr>],
      undated = []\<rparr>"

text \<open>
  A source file whose readings are -1 and 0, one with a header and no rows, and one
  whose second row has no timestamp, each with the frame load_data makes of it alone.
\<close>

definition negative_frame :: frame where
  "negative_frame =
     [(''Datetime'', [Txt ''2021-01-01 00:00:00'', Txt ''2021-01-01 01:00:00'']),
      (''PJM_MW'', [Num (- 1), Num 0])]"

definition negative_df :: dataframe where
  "negative_df =
     \<lparr>vcols = [''PJM_MW''],
      rows =
        [\<lparr>Datetime = \<lparr>year = 2021, month = 1, day = 1, hour = 0, minute = 0, second = 0\<rparr>,
          vals = [Num (- 1)]\<rparr>,
         \<lparr>Datetime = \<lparr>year = 2021, month = 1, day = 1, hour = 1, minute = 0, second = 0\<rparr>,
          vals = [Num 0]\<rparr>],
      undated = []\<rparr>"

definition header_only_frame :: frame where
  "header_only_frame = [(''Datetime'', []), (''PJM_MW'', [])]"

definition empty_df :: dataframe where
  "empty_df = \<lparr>vcols = [''PJM_MW''], rows = [], undated = []\<rparr>"

definition gap_frame :: frame where
  "gap_frame =
     [(''Datetime'', [Txt ''2021-01-01 00:00:00'', Null]),
      (''PJM_MW'', [Num 0, Num 5])]"

definition gap_df :: dataframe where
  "gap_df =
     \<lparr>vcols = [''PJM_MW''],
      rows =
        [\<lparr>Datetime = \<lparr>year = 2021, month = 1, day = 1, hour = 0, minute = 0, second = 0\<rparr>,
          vals = [Num 0]\<rparr>],
      undated = [[Num 5]]\<rparr>"

text \<open>
  The float64 nearest to one tenth, which is what \<open>pd.read_csv\<close> makes of \<open>0.1\<close>, and a
  frame with three readings of it on one day.
\<close>

definition tenth :: real where
  "tenth = 3602879701896397 / 36028797018963968"

definition tenth_df :: dataframe where
  "tenth_df =
     \<lparr>vcols = [''PJM_MW''],
      rows =
        [\<lparr>Datetime = \<lparr>year = 2021, month = 1, day = 1, hour = 0, minute = 0, second = 0\<rparr>,
          vals = [Num tenth]\<rparr>,
         \<lparr>Datetime = \<lparr>year = 2021, month = 1, day = 1, hour = 1, minute = 0, second = 0\<rparr>,
          vals = [Num tenth]\<rparr>,
         \<lparr>Datetime = \<lparr>year = 2021, month = 1, day = 1, hour = 2, minute = 0, second = 0\<rparr>,
          vals = [Num tenth]\<rparr>],
      undated = []\<rparr>"

text \<open>A source file in which one timestamp occurs twice.\<close>

definition repeated_frame :: frame where
  "repeated_frame =
     [(''Datetime'', [Txt ''2021-11-07 01:00:00'', Txt ''2021-11-07 01:00:00'']),
      (''PJM_MW'', [Num 100, Num 120])]"

section \<open>Reading a joined table\<close>

text \<open>
  The cells a keyed table holds for a key: those of the first row with that key, and
  nulls, one for each column, when the table has no such row.
\<close>

definition cells_at :: "nat \<Rightarrow> (cell \<times> cell list) list \<Rightarrow> cell \<Rightarrow> cell list" where
  "cells_at n t k = (case map_of t k of Some vs \<Rightarrow> vs | None \<Rightarrow> replicate n Null)"

definition keys :: "table \<Rightarrow> cell set" where
  "keys t = set (map fst (rws t))"

text \<open>The cells that the tables of a list hold for a key, one table after the other.\<close>

definition joined :: "table list \<Rightarrow> cell \<Rightarrow> cell list" where
  "joined ts k = concat (map (\<lambda>t. cells_at (length (cols t)) (rws t) k) ts)"

text \<open>
  Two source files with no timestamp in common, the first of which repeats its
  timestamp, and the frame load_data makes of them.
\<close>

definition disjoint_files :: "(string \<times> frame option) list" where
  "disjoint_files =
     [(''data/PJM_hourly.csv'', Some repeated_frame),
      (''data/aep_hourly.csv'', Some two_column_frame)]"

definition disjoint_df :: dataframe where
  "disjoint_df =
     \<lparr>vcols = [''PJM_MW'', ''AEP_MW''],
      rows =
        [\<lparr>Datetime = \<lparr>year = 2021, month = 1, day = 1, hour = 0, minute = 0, second = 0\<rparr>,
          vals = [Null, Num 50]\<rparr>,
         \<lparr>Datetime = \<lparr>year = 2021, month = 11, day = 7, hour = 1, minute = 0, second = 0\<rparr>,
          vals = [Num 100, Null]\<rparr>,
         \<lparr>Datetime = \<lparr>year = 2021, month = 11, day = 7, hour = 1, minute = 0, second = 0\<rparr>,
          vals = [Num 120, Null]\<rparr>],
      undated = []\<rparr>"

section \<open>Grouping: helper lemmas\<close>

lemma sum_filter_sizes:
  "finite A \<Longrightarrow> key ` set rs \<subseteq> A \<Longrightarrow>
   (\<Sum>k\<in>A. length (filter (\<lambda>r. key r = k) rs)) = length rs"
proof (induction rs)
  case Nil
  then show ?case by simp
next
  case (Cons r rs)
  have "(\<Sum>k\<in>A. length (filter (\<lambda>r. key r = k) (r # rs)))
        = (\<Sum>k\<in>A. (if key r = k then 1 else 0) + length (filter (\<lambda>r. key r = k) rs))"
    by (rule sum.cong) auto
  also have "\<dots> = (\<Sum>k\<in>A. (if key r = k then 1 else 0)) + length rs"
    using Cons by (simp add: sum.distrib)
  also have "(\<Sum>k\<in>A. (if key r = k then 1 else 0)) = (1::nat)"
    using Cons.prems by (simp add: sum.delta')
  finally show ?case by simp
qed

lemma groupby_keys: "map fst (groupby key rs) = sort (remdups (map key rs))"
  by (simp add: groupby_def comp_def)

lemma groupby_sizes: "sum_list (map (\<lambda>g. length (snd g)) (groupby key rs)) = length rs"
proof -
  let ?ks = "sort (remdups (map key rs))"
  have d: "distinct ?ks" by simp
  have "sum_list (map (\<lambda>g. length (snd g)) (groupby key rs))
        = sum_list (map (\<lambda>k. length (filter (\<lambda>r. key r = k) rs)) ?ks)"
    by (simp add: groupby_def comp_def)
  also have "\<dots> = (\<Sum>k\<in>set ?ks. length (filter (\<lambda>r. key r = k) rs))"
    using d by (rule sum_list_distinct_conv_sum_set)
  also have "\<dots> = length rs"
    by (rule sum_filter_sizes) auto
  finally show ?thesis .
qed

lemma groupby_unique:
  assumes "r \<in> set rs"
  shows "\<exists>!g. g \<in> set (groupby key rs) \<and> r \<in> set (snd g)"
proof
  show "(key r, filter (\<lambda>r'. key r' = key r) rs) \<in> set (groupby key rs)
        \<and> r \<in> set (snd (key r, filter (\<lambda>r'. key r' = key r) rs))"
    using assms by (auto simp: groupby_def)
next
  fix g assume "g \<in> set (groupby key rs) \<and> r \<in> set (snd g)"
  then show "g = (key r, filter (\<lambda>r'. key r' = key r) rs)"
    by (auto simp: groupby_def)
qed

lemma groupby_sorted: "sorted (map fst (groupby key rs)) \<and> distinct (map fst (groupby key rs))"
  by (simp add: groupby_keys)

lemma groupby_key_set: "set (map fst (groupby key rs)) = key ` set rs"
  by (simp add: groupby_keys)

lemma group_mean_keys: "map fst (group_mean i gs) = map fst gs"
  by (simp add: group_mean_def comp_def case_prod_beta)

lemma dashboard_dated:
  assumes "rows df \<noteq> []" and "undated df = []"
  shows "dashboard df c s e =
           (case index_of c (vcols df) of
              None \<Rightarrow> Inl KeyError
            | Some i \<Rightarrow>
                if \<exists>r \<in> set (rows df). is_text (vals r ! i) then Inl TypeError
                else Inr (kpis i (filtered_df df s e)))"
  using assms by (simp add: dashboard_def date_range_def)

lemma dashboard_Inr:
  "dashboard df c s e = Inr rep \<Longrightarrow>
   \<exists>i. index_of c (vcols df) = Some i \<and> rep = kpis i (filtered_df df s e)"
  by (auto simp: dashboard_def split: sum.splits prod.splits option.splits if_splits)

lemma count_list_filter_if:
  "count_list (filter P xs) r = (if P r then count_list xs r else 0)"
  by (induction xs) auto

section \<open>The example frame: evaluation lemmas\<close>

lemma example_filtered:
  "filtered_df example_df (2020, 1, 1) (2021, 1, 1) = rows example_df"
  by (simp add: filtered_df_def example_df_def Date_def)

lemma example_filtered_2021:
  "filtered_df example_df (2021, 1, 1) (2021, 1, 1) = tl (rows example_df)"
  by (simp add: filtered_df_def example_df_def Date_def)

lemma example_index: "index_of ''PJM_MW'' (vcols example_df) = Some 0"
  by (simp add: example_df_def)

lemma example_numeric: "(\<exists>r \<in> set (rows example_df). is_text (vals r ! 0)) = False"
  by (simp add: example_df_def is_text_def)

lemma example_dated: "rows example_df \<noteq> []" "undated example_df = []"
  by (simp_all add: example_df_def)

lemma example_dashboard:
  "dashboard example_df ''PJM_MW'' (2020, 1, 1) (2021, 1, 1) = Inr (kpis 0 (rows example_df))"
  unfolding dashboard_dated [OF example_dated] example_filtered example_index
  by (simp add: example_numeric)

lemma example_dashboard_2021:
  "dashboard example_df ''PJM_MW'' (2021, 1, 1) (2021, 1, 1) = Inr (kpis 0 (tl (rows example_df)))"
  unfolding dashboard_dated [OF example_dated] example_filtered_2021 example_index
  by (simp add: example_numeric)

section \<open>The date filter and the groupings\<close>

text \<open>
  C6. The filtered frame holds exactly the rows of the frame whose date lies between the
  start date and the end date, both included, each as often as the frame holds it; when
  the start date is after the end date it is empty, and nothing is raised: the filter
  is a total function.
\<close>

theorem C6_date_filter:
  "(r \<in> set (filtered_df df start_date end_date)
      \<longleftrightarrow> r \<in> set (rows df) \<and> start_date \<le> Date r \<and> Date r \<le> end_date)
   \<and> count_list (filtered_df df start_date end_date) r
       = (if start_date \<le> Date r \<and> Date r \<le> end_date then count_list (rows df) r else 0)
   \<and> (end_date < start_date \<longrightarrow> filtered_df df start_date end_date = [])"
proof (intro conjI impI)
  show "r \<in> set (filtered_df df start_date end_date)
      \<longleftrightarrow> r \<in> set (rows df) \<and> start_date \<le> Date r \<and> Date r \<le> end_date"
    by (auto simp: filtered_df_def)
  show "count_list (filtered_df df start_date end_date) r
       = (if start_date \<le> Date r \<and> Date r \<le> end_date then count_list (rows df) r else 0)"
    unfolding filtered_df_def by (simp add: count_list_filter_if)
next
  assume lt: "end_date < start_date"
  have "\<not> (start_date \<le> d \<and> d \<le> end_date)" for d
    using lt by (meson leD order_trans)
  then show "filtered_df df start_date end_date = []"
    by (simp add: filtered_df_def)
qed

theorem C6_date_filter_witness:
  "(2020, 6, 15) < ((2021, 6, 15) :: date)
   \<and> filtered_df example_df (2021, 6, 15) (2020, 6, 15) = []"
  using C6_date_filter [where df = example_df and start_date = "(2021, 6, 15)"
      and end_date = "(2020, 6, 15)"]
  by simp

text \<open>
  C8. The daily, hourly and day-of-week tables have one line for each group of the
  grouping of the filtered rows by date, hour and day of week. Each grouping partitions
  the filtered rows: the group sizes add up to the number of filtered rows and every
  filtered row lies in exactly one group. The hourly table is in strictly ascending
  order of the hour and has a line for an hour exactly when a filtered row has that
  hour.
\<close>

theorem C8_groupings_partition:
  assumes "dashboard df selected_column start_date end_date = Inr rep"
  shows "map fst (daily_consumption rep) = map fst (groupby Date (filtered_df df start_date end_date))
       \<and> map fst (hourly_avg rep) = map fst (groupby Hour (filtered_df df start_date end_date))
       \<and> map fst (dow_avg rep) = map fst (groupby Day_of_week (filtered_df df start_date end_date))
       \<and> sum_list (map (\<lambda>g. length (snd g)) (groupby Date (filtered_df df start_date end_date)))
           = length (filtered_df df start_date end_date)
       \<and> sum_list (map (\<lambda>g. length (snd g)) (groupby Hour (filtered_df df start_date end_date)))
           = length (filtered_df df start_date end_date)
       \<and> sum_list (map (\<lambda>g. length (snd g)) (groupby Day_of_week (filtered_df df start_date end_date)))
           = length (filtered_df df start_date end_date)
       \<and> (\<forall>r \<in> set (filtered_df df start_date end_date).
            (\<exists>!g. g \<in> set (groupby Date (filtered_df df start_date end_date)) \<and> r \<in> set (snd g))
          \<and> (\<exists>!g. g \<in> set (groupby Hour (filtered_df df start_date end_date)) \<and> r \<in> set (snd g))
          \<and> (\<exists>!g. g \<in> set (groupby Day_of_week (filtered_df df start_date end_date)) \<and> r \<in> set (snd g)))
       \<and> sorted (map fst (hourly_avg rep)) \<and> distinct (map fst (hourly_avg rep))
       \<and> set (map fst (hourly_avg rep)) = Hour ` set (filtered_df df start_date end_date)"
proof -
  let ?f = "filtered_df df start_date end_date"
  from assms obtain i where rep: "rep = kpis i ?f"
    using dashboard_Inr by blast
  have d: "map fst (daily_consumption rep) = map fst (groupby Date ?f)"
    by (simp add: rep kpis_def Let_def group_mean_keys)
  have h: "map fst (hourly_avg rep) = map fst (groupby Hour ?f)"
    by (simp add: rep kpis_def Let_def group_mean_keys)
  have w: "map fst (dow_avg rep) = map fst (groupby Day_of_week ?f)"
    by (simp add: rep kpis_def Let_def comp_def case_prod_beta group_mean_keys [unfolded comp_def] group_mean_def)
  have u: "\<forall>r \<in> set ?f.
            (\<exists>!g. g \<in> set (groupby Date ?f) \<and> r \<in> set (snd g))
          \<and> (\<exists>!g. g \<in> set (groupby Hour ?f) \<and> r \<in> set (snd g))
          \<and> (\<exists>!g. g \<in> set (groupby Day_of_week ?f) \<and> r \<in> set (snd g))"
  proof (intro ballI conjI)
    fix r assume r: "r \<in> set ?f"
    show "\<exists>!g. g \<in> set (groupby Date ?f) \<and> r \<in> set (snd g)"
      using r by (rule groupby_unique)
    show "\<exists>!g. g \<in> set (groupby Hour ?f) \<and> r \<in> set (snd g)"
      using r by (rule groupby_unique)
    show "\<exists>!g. g \<in> set (groupby Day_of_week ?f) \<and> r \<in> set (snd g)"
      using r by (rule groupby_unique)
  qed
  have s1: "sorted (map fst (hourly_avg rep))"
    unfolding h using groupby_sorted by blast
  have s2: "distinct (map fst (hourly_avg rep))"
    unfolding h using groupby_sorted by blast
  have k: "set (map fst (hourly_avg rep)) = Hour ` set ?f"
    unfolding h by (rule groupby_key_set)
  show ?thesis
    by (intro conjI d h w u s1 s2 k groupby_sizes)
qed

theorem C8_groupings_partition_witness:
  "dashboard example_df ''PJM_MW'' (2020, 1, 1) (2021, 1, 1) = Inr (kpis 0 (rows example_df))
   \<and> length (filtered_df example_df (2020, 1, 1) (2021, 1, 1)) = 3
   \<and> map fst (hourly_avg (kpis 0 (rows example_df))) = [0, 1, 23]
   \<and> sum_list (map (\<lambda>g. length (snd g)) (groupby Hour (rows example_df))) = 3"
proof -
  note t = C8_groupings_partition [OF example_dashboard, unfolded example_filtered]
  have n: "length (rows example_df) = 3"
    by (simp add: example_df_def)
  have k: "map fst (groupby Hour (rows example_df)) = [0, 1, 23]"
    by (simp add: groupby_keys example_df_def Hour_def)
  have h: "map fst (hourly_avg (kpis 0 (rows example_df))) = [0, 1, 23]"
    using t k by simp
  have s: "sum_list (map (\<lambda>g. length (snd g)) (groupby Hour (rows example_df))) = 3"
    using t n by simp
  show ?thesis
    unfolding example_filtered by (intro conjI example_dashboard [unfolded example_filtered] h s n)
qed

section \<open>Canonicalizing one file: helper lemmas\<close>

lemma endswith_MW_not_special:
  "endswith c ''_MW'' \<Longrightarrow> c \<noteq> ''Datetime'' \<and> c \<noteq> ''MW''"
  by (auto simp: endswith_def)

lemma filter_single_map_of:
  "filter (\<lambda>c. fst c = l) f = [(n, xs)] \<Longrightarrow> map_of f l = Some xs \<and> n = l"
proof (induction f)
  case Nil
  then show ?case by simp
next
  case (Cons a f)
  then show ?case
    by (cases a) (auto split: if_splits)
qed

lemma map_of_filter_single:
  "distinct (map fst f) \<Longrightarrow> map_of f l = Some xs \<Longrightarrow> filter (\<lambda>c. fst c = l) f = [(l, xs)]"
proof (induction f)
  case Nil
  then show ?case by simp
next
  case (Cons a f)
  obtain n ys where a: "a = (n, ys)" by (cases a)
  show ?case
  proof (cases "n = l")
    case True
    have "l \<notin> fst ` set f"
      using Cons.prems(1) True a by simp
    then have "\<forall>c \<in> set f. fst c \<noteq> l"
      by (metis imageI)
    then have "filter (\<lambda>c. fst c = l) f = []"
      by (simp add: filter_empty_conv)
    then show ?thesis using True Cons.prems(2) a by simp
  next
    case False
    then show ?thesis using Cons a by simp
  qed
qed

lemma select_pair:
  assumes "distinct (names t)" "map_of t a = Some ks" "map_of t b = Some vs"
  shows "select [a, b] t = Inr [(a, ks), (b, vs)]"
proof -
  have "a \<in> set (names t)" "b \<in> set (names t)"
    using assms(2,3) by (auto simp: names_def dest: map_of_SomeD intro: rev_image_eqI)
  then show ?thesis
    using assms by (simp add: select_def names_def map_of_filter_single)
qed

lemma canonicalize_selected:
  assumes "select [''Datetime'', mw] (fix_columns f) = Inr [(a, ks), (b, vs)]"
    and "mw = (if ''MW'' \<in> set (names (fix_columns f)) then ''MW'' else fst (fix_columns f ! 1))"
    and "''MW'' \<in> set (names (fix_columns f)) \<or> 2 \<le> length (fix_columns f)"
  shows "canonicalize file f =
           Inr \<lparr>cols = [region_of file @ ''_MW''], rws = zip ks (map (\<lambda>v. [v]) vs)\<rparr>"
  using assms by (auto simp: canonicalize_def Let_def)

lemma names_rename:
  "names (rename a b f) = map (\<lambda>n. if n = a then b else n) (names f)"
  by (simp add: names_def rename_def comp_def case_prod_beta)

lemma length_rename: "length (rename a b f) = length f"
  by (simp add: rename_def)

lemma distinct_rename:
  assumes "distinct (names f)" "b \<notin> set (names f)"
  shows "distinct (names (rename a b f))"
proof -
  have "inj_on (\<lambda>n. if n = a then b else n) (set (names f))"
    using assms(2) by (auto simp: inj_on_def split: if_splits)
  then show ?thesis
    using assms(1) by (simp add: names_rename distinct_map)
qed

lemma map_of_rename_other:
  "l \<noteq> a \<Longrightarrow> l \<noteq> b \<Longrightarrow> map_of (rename a b f) l = map_of f l"
  by (induction f) (auto simp: rename_def)

lemma map_of_rename_new:
  "b \<notin> set (names f) \<Longrightarrow> map_of (rename a b f) b = map_of f a"
  by (induction f) (auto simp: rename_def names_def)

lemma filter_rename_nonempty:
  "a \<in> set (names f) \<Longrightarrow> filter (\<lambda>x. fst x = b) (rename a b f) \<noteq> []"
  by (induction f) (auto simp: rename_def names_def)

lemma filter_rename_single:
  "filter (\<lambda>x. fst x = b) (rename a b f) = [(n, vs)] \<Longrightarrow> a \<in> set (names f) \<Longrightarrow>
   map_of f a = Some vs"
proof (induction f)
  case Nil
  then show ?case by (simp add: names_def)
next
  case (Cons x f)
  obtain m xs where x: "x = (m, xs)" by (cases x)
  have r: "rename a b ((m, xs) # f) = (if m = a then b else m, xs) # rename a b f"
    by (simp add: rename_def)
  note p = Cons.prems(1) [unfolded x r]
  show ?case
  proof (cases "m = a")
    case True
    then show ?thesis using p by (simp add: x)
  next
    case False
    then have af: "a \<in> set (names f)"
      using Cons.prems(2) by (simp add: names_def x)
    show ?thesis
    proof (cases "m = b")
      case True
      with p have "filter (\<lambda>x. fst x = b) (rename a b f) = []"
        using False by auto
      with filter_rename_nonempty [OF af] show ?thesis by simp
    next
      case nb: False
      then have "filter (\<lambda>x. fst x = b) (rename a b f) = [(n, vs)]"
        using p False by simp
      from Cons.IH [OF this af] show ?thesis
        using False by (simp add: x)
    qed
  qed
qed

lemma find_in_names:
  "find P (names f) = Some c \<Longrightarrow> c \<in> set (names f) \<and> P c"
  by (auto simp: find_Some_iff)

lemma fix_columns_many:
  "length f \<noteq> 2 \<Longrightarrow> find (\<lambda>col. endswith col ''_MW'') (names f) = Some c \<Longrightarrow>
   fix_columns f = rename c ''MW'' f"
  by (simp add: fix_columns_def)

lemma fix_columns_none:
  "length f \<noteq> 2 \<Longrightarrow> find (\<lambda>col. endswith col ''_MW'') (names f) = None \<Longrightarrow>
   fix_columns f = f"
  by (simp add: fix_columns_def)

lemma length_fix_columns: "length (fix_columns f) = length f"
  by (auto simp: fix_columns_def length_rename split: option.splits)

lemma Datetime_fix_columns:
  "length f \<noteq> 2 \<Longrightarrow> ''Datetime'' \<in> set (names (fix_columns f)) \<longleftrightarrow> ''Datetime'' \<in> set (names f)"
proof (cases "find (\<lambda>col. endswith col ''_MW'') (names f)")
  case None
  assume "length f \<noteq> 2"
  then show ?thesis using None by (simp add: fix_columns_none)
next
  case (Some c)
  assume n: "length f \<noteq> 2"
  have "c \<noteq> ''Datetime''"
    using find_in_names [OF Some] endswith_MW_not_special by blast
  then show ?thesis
    using n Some by (auto simp: fix_columns_many names_rename)
qed

lemma canonicalize_two:
  "canonicalize file [(n1, ks), (n2, vs)] =
     Inr \<lparr>cols = [region_of file @ ''_MW''], rws = zip ks (map (\<lambda>v. [v]) vs)\<rparr>"
  by (simp add: canonicalize_def fix_columns_def names_def select_def)

lemma canonicalize_suffix:
  assumes "length f \<noteq> 2" "distinct (names f)"
    and "find (\<lambda>col. endswith col ''_MW'') (names f) = Some c"
    and "''MW'' \<notin> set (names f)"
    and "map_of f ''Datetime'' = Some ks" "map_of f c = Some vs"
  shows "canonicalize file f =
           Inr \<lparr>cols = [region_of file @ ''_MW''], rws = zip ks (map (\<lambda>v. [v]) vs)\<rparr>"
proof -
  let ?t = "rename c ''MW'' f"
  have t: "fix_columns f = ?t"
    using assms(1,3) by (rule fix_columns_many)
  have c: "c \<in> set (names f)" "c \<noteq> ''Datetime''"
    using find_in_names [OF assms(3)] endswith_MW_not_special by blast+
  have d: "distinct (names ?t)"
    using assms(2,4) by (rule distinct_rename)
  have k: "map_of ?t ''Datetime'' = Some ks"
    using c(2) assms(5) by (simp add: map_of_rename_other)
  have v: "map_of ?t ''MW'' = Some vs"
    using assms(4,6) by (simp add: map_of_rename_new)
  have mw: "''MW'' \<in> set (names ?t)"
    using c(1) by (auto simp: names_rename)
  have "select [''Datetime'', ''MW''] (fix_columns f) = Inr [(''Datetime'', ks), (''MW'', vs)]"
    unfolding t using d k v by (rule select_pair)
  then show ?thesis
    by (rule canonicalize_selected) (simp_all add: t mw)
qed

lemma canonicalize_named_MW:
  assumes "length f \<noteq> 2" "distinct (names f)"
    and "find (\<lambda>col. endswith col ''_MW'') (names f) = None"
    and "map_of f ''Datetime'' = Some ks" "map_of f ''MW'' = Some vs"
  shows "canonicalize file f =
           Inr \<lparr>cols = [region_of file @ ''_MW''], rws = zip ks (map (\<lambda>v. [v]) vs)\<rparr>"
proof -
  have t: "fix_columns f = f"
    using assms(1,3) by (rule fix_columns_none)
  have mw: "''MW'' \<in> set (names f)"
    using assms(5) by (auto simp: names_def dest: map_of_SomeD intro: rev_image_eqI)
  have "select [''Datetime'', ''MW''] (fix_columns f) = Inr [(''Datetime'', ks), (''MW'', vs)]"
    unfolding t using assms(2,4,5) by (rule select_pair)
  then show ?thesis
    by (rule canonicalize_selected) (simp_all add: t mw)
qed

lemma canonicalize_second:
  assumes "2 < length f" "distinct (names f)"
    and "find (\<lambda>col. endswith col ''_MW'') (names f) = None"
    and "map_of f ''Datetime'' = Some ks" "''MW'' \<notin> set (names f)"
  shows "canonicalize file f =
           Inr \<lparr>cols = [region_of file @ ''_MW''], rws = zip ks (map (\<lambda>v. [v]) (snd (f ! 1)))\<rparr>"
proof -
  have t: "fix_columns f = f"
    using assms(1,3) by (simp add: fix_columns_none)
  have m: "f ! 1 \<in> set f"
    using assms(1) by simp
  have "map_of f (fst (f ! 1)) = Some (snd (f ! 1))"
    using assms(2) m by (simp add: names_def)
  with assms(2,4)
  have "select [''Datetime'', fst (f ! 1)] (fix_columns f)
          = Inr [(''Datetime'', ks), (fst (f ! 1), snd (f ! 1))]"
    unfolding t by (rule select_pair)
  then show ?thesis
    by (rule canonicalize_selected) (use assms(1,5) in \<open>simp_all add: t\<close>)
qed

lemma append_two:
  "xs @ ys = [p, q] \<Longrightarrow> xs \<noteq> [] \<Longrightarrow> ys \<noteq> [] \<Longrightarrow> xs = [p] \<and> ys = [q]"
  by (cases xs; cases ys) (auto simp: Cons_eq_append_conv append_eq_Cons_conv)

lemma filter_name_nonempty:
  "l \<in> set (names f) \<Longrightarrow> filter (\<lambda>c. fst c = l) f \<noteq> []"
  by (auto simp: names_def filter_empty_conv)

lemma select_two_Inr:
  assumes "select [a, b] t = Inr [(n1, ks), (n2, vs)]"
  shows "a \<in> set (names t) \<and> filter (\<lambda>c. fst c = a) t = [(n1, ks)]
       \<and> filter (\<lambda>c. fst c = b) t = [(n2, vs)]"
proof -
  from assms have in_names: "a \<in> set (names t)" "b \<in> set (names t)"
    and app: "filter (\<lambda>c. fst c = a) t @ filter (\<lambda>c. fst c = b) t = [(n1, ks), (n2, vs)]"
    by (auto simp: select_def split: if_splits)
  from append_two [OF app filter_name_nonempty [OF in_names(1)]
      filter_name_nonempty [OF in_names(2)]] in_names(1)
  show ?thesis by simp
qed

lemma canonicalize_Inr:
  assumes "canonicalize file f = Inr t"
  shows "\<exists>n1 ks n2 vs.
           select [''Datetime'',
                   if ''MW'' \<in> set (names (fix_columns f)) then ''MW'' else fst (fix_columns f ! 1)]
             (fix_columns f) = Inr [(n1, ks), (n2, vs)]
         \<and> t = \<lparr>cols = [region_of file @ ''_MW''], rws = zip ks (map (\<lambda>v. [v]) vs)\<rparr>"
  using assms
  by (auto simp: canonicalize_def Let_def split: if_splits sum.splits list.splits prod.splits)

lemma region_PJM: "region_of ''data/PJM_hourly.csv'' = ''PJM''"
  by code_simp

lemma region_aep: "region_of ''data/aep_hourly.csv'' = ''AEP''"
  by code_simp

lemma suffix_frame_facts:
  "length suffix_frame \<noteq> 2 \<and> distinct (names suffix_frame)
   \<and> find (\<lambda>col. endswith col ''_MW'') (names suffix_frame) = Some ''DOM_MW''
   \<and> ''MW'' \<notin> set (names suffix_frame)
   \<and> map_of suffix_frame ''Datetime''
       = Some [Txt ''2021-01-01 00:00:00'', Txt ''2021-01-01 01:00:00'']
   \<and> map_of suffix_frame ''DOM_MW'' = Some [Num 70, Num 75]"
  by (simp add: suffix_frame_def names_def endswith_def)

lemma named_MW_frame_facts:
  "length named_MW_frame \<noteq> 2 \<and> distinct (names named_MW_frame)
   \<and> find (\<lambda>col. endswith col ''_MW'') (names named_MW_frame) = None
   \<and> map_of named_MW_frame ''Datetime'' = Some [Txt ''2021-01-01 00:00:00'']
   \<and> map_of named_MW_frame ''MW'' = Some [Num 2]"
  by (simp add: named_MW_frame_def names_def endswith_def)

lemma positional_frame_facts:
  "2 < length positional_frame \<and> distinct (names positional_frame)
   \<and> find (\<lambda>col. endswith col ''_MW'') (names positional_frame) = None
   \<and> ''MW'' \<notin> set (names positional_frame)
   \<and> map_of positional_frame ''Datetime'' = Some [Txt ''2021-01-01 00:00:00'']"
  by (simp add: positional_frame_def names_def endswith_def)

lemma positional_second: "snd (positional_frame ! Suc 0) = [Num 90]"
  by (simp add: positional_frame_def)

lemma suffix_frame_canonical:
  "canonicalize ''data/PJM_hourly.csv'' suffix_frame =
     Inr \<lparr>cols = [''PJM_MW''],
          rws = [(Txt ''2021-01-01 00:00:00'', [Num 70]), (Txt ''2021-01-01 01:00:00'', [Num 75])]\<rparr>"
  using canonicalize_suffix [of suffix_frame "''DOM_MW''"
      "[Txt ''2021-01-01 00:00:00'', Txt ''2021-01-01 01:00:00'']" "[Num 70, Num 75]"
      "''data/PJM_hourly.csv''"] suffix_frame_facts
  by (simp add: region_PJM)

section \<open>Canonicalizing one file\<close>

text \<open>
  C2, as the code has it. A frame with exactly two columns is taken by position,
  whatever the columns are called. A frame with another number of columns and distinct
  names needs a column named \<open>Datetime\<close>, which gives the timestamps; its value column
  is the first column whose name ends with \<open>_MW\<close> when there is one (and no column is
  already named \<open>MW\<close>), otherwise the column named \<open>MW\<close> when there is one, otherwise
  the second column by position. In each case the result is the timestamp column with
  the value column, named after the region.
\<close>

theorem C2_canonicalization_rules:
  "(f = [(n1, ks), (n2, vs)] \<longrightarrow>
      canonicalize file f =
        Inr \<lparr>cols = [region_of file @ ''_MW''], rws = zip ks (map (\<lambda>v. [v]) vs)\<rparr>)
   \<and> (length f \<noteq> 2 \<and> distinct (names f)
        \<and> find (\<lambda>col. endswith col ''_MW'') (names f) = Some c
        \<and> ''MW'' \<notin> set (names f)
        \<and> map_of f ''Datetime'' = Some ks \<and> map_of f c = Some vs \<longrightarrow>
      canonicalize file f =
        Inr \<lparr>cols = [region_of file @ ''_MW''], rws = zip ks (map (\<lambda>v. [v]) vs)\<rparr>)
   \<and> (length f \<noteq> 2 \<and> distinct (names f)
        \<and> find (\<lambda>col. endswith col ''_MW'') (names f) = None
        \<and> map_of f ''Datetime'' = Some ks \<and> map_of f ''MW'' = Some vs \<longrightarrow>
      canonicalize file f =
        Inr \<lparr>cols = [region_of file @ ''_MW''], rws = zip ks (map (\<lambda>v. [v]) vs)\<rparr>)
   \<and> (2 < length f \<and> distinct (names f)
        \<and> find (\<lambda>col. endswith col ''_MW'') (names f) = None
        \<and> ''MW'' \<notin> set (names f)
        \<and> map_of f ''Datetime'' = Some ks \<longrightarrow>
      canonicalize file f =
        Inr \<lparr>cols = [region_of file @ ''_MW''],
             rws = zip ks (map (\<lambda>v. [v]) (snd (f ! 1)))\<rparr>)"
proof (intro conjI impI)
  assume "f = [(n1, ks), (n2, vs)]"
  then show "canonicalize file f =
        Inr \<lparr>cols = [region_of file @ ''_MW''], rws = zip ks (map (\<lambda>v. [v]) vs)\<rparr>"
    by (simp add: canonicalize_two)
next
  assume "length f \<noteq> 2 \<and> distinct (names f)
        \<and> find (\<lambda>col. endswith col ''_MW'') (names f) = Some c
        \<and> ''MW'' \<notin> set (names f)
        \<and> map_of f ''Datetime'' = Some ks \<and> map_of f c = Some vs"
  then show "canonicalize file f =
        Inr \<lparr>cols = [region_of file @ ''_MW''], rws = zip ks (map (\<lambda>v. [v]) vs)\<rparr>"
    using canonicalize_suffix by blast
next
  assume "length f \<noteq> 2 \<and> distinct (names f)
        \<and> find (\<lambda>col. endswith col ''_MW'') (names f) = None
        \<and> map_of f ''Datetime'' = Some ks \<and> map_of f ''MW'' = Some vs"
  then show "canonicalize file f =
        Inr \<lparr>cols = [region_of file @ ''_MW''], rws = zip ks (map (\<lambda>v. [v]) vs)\<rparr>"
    using canonicalize_named_MW by blast
next
  assume "2 < length f \<and> distinct (names f)
        \<and> find (\<lambda>col. endswith col ''_MW'') (names f) = None
        \<and> ''MW'' \<notin> set (names f)
        \<and> map_of f ''Datetime'' = Some ks"
  then show "canonicalize file f =
        Inr \<lparr>cols = [region_of file @ ''_MW''],
             rws = zip ks (map (\<lambda>v. [v]) (snd (f ! 1)))\<rparr>"
    using canonicalize_second by blast
qed

theorem C2_canonicalization_rules_witness:
  "canonicalize ''data/aep_hourly.csv'' two_column_frame =
     Inr \<lparr>cols = [''AEP_MW''], rws = [(Txt ''2021-01-01 00:00:00'', [Num 50])]\<rparr>
   \<and> canonicalize ''data/PJM_hourly.csv'' suffix_frame =
     Inr \<lparr>cols = [''PJM_MW''],
          rws = [(Txt ''2021-01-01 00:00:00'', [Num 70]), (Txt ''2021-01-01 01:00:00'', [Num 75])]\<rparr>
   \<and> canonicalize ''data/PJM_hourly.csv'' named_MW_frame =
     Inr \<lparr>cols = [''PJM_MW''], rws = [(Txt ''2021-01-01 00:00:00'', [Num 2])]\<rparr>
   \<and> canonicalize ''data/PJM_hourly.csv'' positional_frame =
     Inr \<lparr>cols = [''PJM_MW''], rws = [(Txt ''2021-01-01 00:00:00'', [Num 90])]\<rparr>"
proof -
  have a: "canonicalize ''data/aep_hourly.csv'' two_column_frame =
     Inr \<lparr>cols = [''AEP_MW''], rws = [(Txt ''2021-01-01 00:00:00'', [Num 50])]\<rparr>"
    using C2_canonicalization_rules [of two_column_frame "''ts''"
        "[Txt ''2021-01-01 00:00:00'']" "''value''" "[Num 50]" "''data/aep_hourly.csv''"]
    by (simp add: two_column_frame_def region_aep)
  have b: "canonicalize ''data/PJM_hourly.csv'' suffix_frame =
     Inr \<lparr>cols = [''PJM_MW''],
          rws = [(Txt ''2021-01-01 00:00:00'', [Num 70]), (Txt ''2021-01-01 01:00:00'', [Num 75])]\<rparr>"
    using C2_canonicalization_rules [of suffix_frame _
        "[Txt ''2021-01-01 00:00:00'', Txt ''2021-01-01 01:00:00'']" _
        "[Num 70, Num 75]" "''data/PJM_hourly.csv''" "''DOM_MW''"] suffix_frame_facts
    by (simp add: region_PJM)
  have c: "canonicalize ''data/PJM_hourly.csv'' named_MW_frame =
     Inr \<lparr>cols = [''PJM_MW''], rws = [(Txt ''2021-01-01 00:00:00'', [Num 2])]\<rparr>"
    using C2_canonicalization_rules [of named_MW_frame _
        "[Txt ''2021-01-01 00:00:00'']" _ "[Num 2]" "''data/PJM_hourly.csv''"] named_MW_frame_facts
    by (simp add: region_PJM)
  have d: "canonicalize ''data/PJM_hourly.csv'' positional_frame =
     Inr \<lparr>cols = [''PJM_MW''], rws = [(Txt ''2021-01-01 00:00:00'', [Num 90])]\<rparr>"
    using C2_canonicalization_rules [of positional_frame _
        "[Txt ''2021-01-01 00:00:00'']" _ _ "''data/PJM_hourly.csv''"] positional_frame_facts
    by (simp add: region_PJM positional_second)
  show ?thesis
    by (intro conjI a b c d)
qed

text \<open>
  The claim as stated fails on a frame of three columns none of which ends with \<open>_MW\<close>:
  the value column is the third one, named \<open>MW\<close>, not the second by position.
\<close>

theorem C2_counterexample:
  "find (\<lambda>col. endswith col ''_MW'') (names named_MW_frame) = None
   \<and> length named_MW_frame = 3
   \<and> named_MW_frame ! 1 = (''temp'', [Num 1])
   \<and> canonicalize ''data/PJM_hourly.csv'' named_MW_frame =
       Inr \<lparr>cols = [''PJM_MW''], rws = [(Txt ''2021-01-01 00:00:00'', [Num 2])]\<rparr>"
proof -
  have "canonicalize ''data/PJM_hourly.csv'' named_MW_frame =
       Inr \<lparr>cols = [''PJM_MW''], rws = [(Txt ''2021-01-01 00:00:00'', [Num 2])]\<rparr>"
    using canonicalize_named_MW [of named_MW_frame "[Txt ''2021-01-01 00:00:00'']" "[Num 2]"
        "''data/PJM_hourly.csv''"] named_MW_frame_facts
    by (simp add: region_PJM)
  then show ?thesis
    using named_MW_frame_facts by (simp add: named_MW_frame_def)
qed

text \<open>
  C10. A frame with more than two columns is canonicalized only if it has a column named
  exactly \<open>Datetime\<close>; without one the selection raises KeyError (the file is then
  skipped by the loop). When such a frame is canonicalized and some column name ends
  with \<open>_MW\<close>, the value column is the first such column in column order and the
  timestamps are those of the \<open>Datetime\<close> column.
\<close>

theorem C10_many_columns_need_Datetime:
  assumes "2 < length f"
  shows "(\<forall>t. canonicalize file f = Inr t \<longrightarrow> ''Datetime'' \<in> set (names f))
       \<and> (''Datetime'' \<notin> set (names f) \<longrightarrow> canonicalize file f = Inl KeyError)
       \<and> (\<forall>t c. canonicalize file f = Inr t
                \<and> find (\<lambda>col. endswith col ''_MW'') (names f) = Some c \<longrightarrow>
            (\<exists>i < length f. names f ! i = c \<and> endswith c ''_MW''
                \<and> (\<forall>j < i. \<not> endswith (names f ! j) ''_MW''))
            \<and> (\<exists>ks vs. map_of f ''Datetime'' = Some ks \<and> map_of f c = Some vs
                \<and> t = \<lparr>cols = [region_of file @ ''_MW''],
                        rws = zip ks (map (\<lambda>v. [v]) vs)\<rparr>))"
proof (intro conjI allI impI)
  have n2: "length f \<noteq> 2" using assms by simp
  {
    fix t assume "canonicalize file f = Inr t"
    from canonicalize_Inr [OF this] obtain n1 ks n2 vs mw
      where "select [''Datetime'', mw] (fix_columns f) = Inr [(n1, ks), (n2, vs)]"
      by blast
    from select_two_Inr [OF this] have "''Datetime'' \<in> set (names (fix_columns f))"
      by simp
    then show "''Datetime'' \<in> set (names f)"
      using Datetime_fix_columns [OF n2] by simp
  }
  {
    assume "''Datetime'' \<notin> set (names f)"
    then have "''Datetime'' \<notin> set (names (fix_columns f))"
      using Datetime_fix_columns [OF n2] by simp
    then show "canonicalize file f = Inl KeyError"
      using assms by (simp add: canonicalize_def Let_def select_def length_fix_columns)
  }
  {
    fix t c
    assume h: "canonicalize file f = Inr t
                \<and> find (\<lambda>col. endswith col ''_MW'') (names f) = Some c"
    then have fc: "find (\<lambda>col. endswith col ''_MW'') (names f) = Some c"
      and ct: "canonicalize file f = Inr t"
      by simp_all
    from fc show "\<exists>i < length f. names f ! i = c \<and> endswith c ''_MW''
                \<and> (\<forall>j < i. \<not> endswith (names f ! j) ''_MW'')"
      by (auto simp: find_Some_iff names_def)
    have fx: "fix_columns f = rename c ''MW'' f"
      using n2 fc by (rule fix_columns_many)
    have c: "c \<in> set (names f)" "c \<noteq> ''Datetime''" "c \<noteq> ''MW''"
      using find_in_names [OF fc] endswith_MW_not_special by blast+
    have mw: "''MW'' \<in> set (names (rename c ''MW'' f))"
      using c(1) by (auto simp: names_rename)
    from canonicalize_Inr [OF ct] obtain n1 ks n2 vs
      where sel: "select [''Datetime'', ''MW''] (rename c ''MW'' f) = Inr [(n1, ks), (n2, vs)]"
        and t: "t = \<lparr>cols = [region_of file @ ''_MW''], rws = zip ks (map (\<lambda>v. [v]) vs)\<rparr>"
      unfolding fx using mw by auto
    from select_two_Inr [OF sel]
    have d: "filter (\<lambda>x. fst x = ''Datetime'') (rename c ''MW'' f) = [(n1, ks)]"
      and v: "filter (\<lambda>x. fst x = ''MW'') (rename c ''MW'' f) = [(n2, vs)]"
      by simp_all
    from filter_single_map_of [OF d] have "map_of (rename c ''MW'' f) ''Datetime'' = Some ks"
      by simp
    then have k: "map_of f ''Datetime'' = Some ks"
      using c(2) by (simp add: map_of_rename_other)
    from filter_rename_single [OF v c(1)] have "map_of f c = Some vs" .
    with k t show "\<exists>ks vs. map_of f ''Datetime'' = Some ks \<and> map_of f c = Some vs
                \<and> t = \<lparr>cols = [region_of file @ ''_MW''],
                        rws = zip ks (map (\<lambda>v. [v]) vs)\<rparr>"
      by blast
  }
qed

theorem C10_many_columns_need_Datetime_witness:
  "2 < length suffix_frame
   \<and> canonicalize ''data/PJM_hourly.csv'' suffix_frame =
     Inr \<lparr>cols = [''PJM_MW''],
          rws = [(Txt ''2021-01-01 00:00:00'', [Num 70]), (Txt ''2021-01-01 01:00:00'', [Num 75])]\<rparr>
   \<and> find (\<lambda>col. endswith col ''_MW'') (names suffix_frame) = Some ''DOM_MW''
   \<and> ''Datetime'' \<in> set (names suffix_frame)
   \<and> map_of suffix_frame ''DOM_MW'' = Some [Num 70, Num 75]
   \<and> 2 < length no_Datetime_frame
   \<and> ''Datetime'' \<notin> set (names no_Datetime_frame)
   \<and> canonicalize ''data/broken_hourly.csv'' no_Datetime_frame = Inl KeyError"
proof -
  have l1: "2 < length suffix_frame" by (simp add: suffix_frame_def)
  have l2: "2 < length no_Datetime_frame" by (simp add: no_Datetime_frame_def)
  have nd: "''Datetime'' \<notin> set (names no_Datetime_frame)"
    by (simp add: no_Datetime_frame_def names_def)
  from C10_many_columns_need_Datetime [OF l1, of "''data/PJM_hourly.csv''"]
    suffix_frame_canonical
  have d: "''Datetime'' \<in> set (names suffix_frame)"
    by blast
  from C10_many_columns_need_Datetime [OF l2, of "''data/broken_hourly.csv''"] nd
  have k: "canonicalize ''data/broken_hourly.csv'' no_Datetime_frame = Inl KeyError"
    by blast
  show ?thesis
    using l1 l2 nd d k suffix_frame_canonical suffix_frame_facts by simp
qed

section \<open>The loading loop: helper lemmas\<close>

lemma load_files_Cons:
  "load_files (src # rest) =
     (case try_load src of
        Inr t \<Rightarrow> (t # fst (load_files rest), snd (load_files rest))
      | Inl e \<Rightarrow> (fst (load_files rest), (fst src, e) # snd (load_files rest)))"
  by (simp add: case_prod_beta split: sum.splits)

lemma load_files_append:
  "load_files (xs @ ys) =
     (fst (load_files xs) @ fst (load_files ys), snd (load_files xs) @ snd (load_files ys))"
proof (induction xs)
  case Nil
  then show ?case by simp
next
  case (Cons x xs)
  show ?case
    unfolding append_Cons load_files_Cons [of x] Cons.IH
    by (simp split: sum.splits)
qed

lemma load_files_skip:
  assumes "try_load bad = Inl e"
  shows "fst (load_files (before @ bad # after)) = fst (load_files (before @ after))"
    and "(fst bad, e) \<in> set (snd (load_files (before @ bad # after)))"
  using assms by (simp_all add: load_files_append load_files_Cons del: load_files.simps(2))

lemma load_files_reports:
  "src \<in> set data_files \<Longrightarrow>
   (case try_load src of
      Inl e \<Rightarrow> (fst src, e) \<in> set (snd (load_files data_files))
    | Inr t \<Rightarrow> t \<in> set (fst (load_files data_files)))"
proof (induction data_files)
  case Nil
  then show ?case by simp
next
  case (Cons x xs)
  show ?case
  proof (cases "src = x")
    case True
    then show ?thesis by (simp add: load_files_Cons del: load_files.simps(2) split: sum.splits)
  next
    case False
    with Cons have "case try_load src of
      Inl e \<Rightarrow> (fst src, e) \<in> set (snd (load_files xs))
    | Inr t \<Rightarrow> t \<in> set (fst (load_files xs))" by simp
    then show ?thesis
      by (cases "try_load x") (auto simp: load_files_Cons simp del: load_files.simps(2) split: sum.splits)
  qed
qed

lemma load_files_none:
  "fst (load_files data_files) = [] \<longleftrightarrow> (\<forall>src \<in> set data_files. \<exists>e. try_load src = Inl e)"
proof (induction data_files)
  case Nil
  then show ?case by simp
next
  case (Cons x xs)
  then show ?case
    by (cases "try_load x") (simp_all add: load_files_Cons del: load_files.simps(2))
qed

lemma merge_error: "merge a b = Inl e \<Longrightarrow> e = MergeError \<or> e = ValueError"
  by (auto simp: merge_def merge_names_def Let_def split: if_splits sum.splits)

lemma merge_all_error: "merge_all df others = Inl e \<Longrightarrow> e = MergeError \<or> e = ValueError"
proof (induction others arbitrary: df)
  case Nil
  then show ?case by simp
next
  case (Cons a others)
  then show ?case
    by (auto split: sum.splits dest: merge_error)
qed

lemma parse_rows_error: "parse_rows p rs = Inl e \<Longrightarrow> e = ParseError"
proof (induction rs arbitrary: e)
  case Nil
  then show ?case by simp
next
  case (Cons r rs)
  obtain k vs where r: "r = (k, vs)" by (cases r)
  from Cons show ?case
    by (auto simp: r split: option.splits sum.splits)
qed

lemma load_data_no_data:
  "load_data p data_files = Inl NoDataLoaded \<longleftrightarrow> fst (load_files data_files) = []"
proof
  assume "fst (load_files data_files) = []"
  then show "load_data p data_files = Inl NoDataLoaded"
    by (simp add: load_data_def)
next
  assume a: "load_data p data_files = Inl NoDataLoaded"
  show "fst (load_files data_files) = []"
  proof (rule ccontr)
    assume "fst (load_files data_files) \<noteq> []"
    then obtain d ds where "fst (load_files data_files) = d # ds"
      by (cases "fst (load_files data_files)") auto
    with a show False
      by (auto simp: load_data_def split: sum.splits
          dest: merge_all_error parse_rows_error)
  qed
qed

lemma load_data_depends_on_loaded:
  "fst (load_files xs) = fst (load_files ys) \<Longrightarrow> load_data p xs = load_data p ys"
  by (simp add: load_data_def)

lemma broken_source:
  "try_load (''data/broken_hourly.csv'', Some no_Datetime_frame) = Inl KeyError"
  by (simp add: try_load_def canonicalize_def fix_columns_def no_Datetime_frame_def
      names_def endswith_def select_def)

lemma pjm_source:
  "try_load (''data/PJM_hourly.csv'', Some pjm_frame) =
     Inr \<lparr>cols = [''PJM_MW''],
          rws = [(Txt ''2020-12-31 23:00:00'', [Num 80]), (Txt ''2021-01-01 00:00:00'', [Num 100]),
                 (Txt ''2021-01-01 01:00:00'', [Num 120])]\<rparr>"
  by (simp add: try_load_def pjm_frame_def canonicalize_two region_PJM)

lemma aep_source:
  "try_load (''data/aep_hourly.csv'', Some two_column_frame) =
     Inr \<lparr>cols = [''AEP_MW''], rws = [(Txt ''2021-01-01 00:00:00'', [Num 50])]\<rparr>"
  by (simp add: try_load_def two_column_frame_def canonicalize_two region_aep)

section \<open>The loading loop\<close>

text \<open>
  C5. A file that cannot be read or canonicalized is reported with its error among the
  warnings and left out, and the files before and after it are loaded as if it were not
  there: the list of loaded frames, and with it the result of load_data, is the same
  with and without the bad file. Every file is either among the loaded frames or among
  the warnings. load_data ends with the terminal error NoDataLoaded exactly when no
  file loads.
\<close>

theorem C5_bad_file_skipped:
  "(try_load bad = Inl e \<longrightarrow>
      fst (load_files (before @ bad # after)) = fst (load_files (before @ after))
      \<and> (fst bad, e) \<in> set (snd (load_files (before @ bad # after)))
      \<and> load_data to_datetime (before @ bad # after) = load_data to_datetime (before @ after))
   \<and> (\<forall>src \<in> set data_files.
        case try_load src of
          Inl e \<Rightarrow> (fst src, e) \<in> set (snd (load_files data_files))
        | Inr t \<Rightarrow> t \<in> set (fst (load_files data_files)))
   \<and> ((\<forall>src \<in> set data_files. \<exists>e. try_load src = Inl e)
        \<longleftrightarrow> load_data to_datetime data_files = Inl NoDataLoaded)"
proof (intro conjI impI ballI)
  assume b: "try_load bad = Inl e"
  show "fst (load_files (before @ bad # after)) = fst (load_files (before @ after))"
    using b by (rule load_files_skip(1))
  then show "load_data to_datetime (before @ bad # after) = load_data to_datetime (before @ after)"
    by (rule load_data_depends_on_loaded)
  show "(fst bad, e) \<in> set (snd (load_files (before @ bad # after)))"
    using b by (rule load_files_skip(2))
next
  fix src assume "src \<in> set data_files"
  then show "case try_load src of
          Inl e \<Rightarrow> (fst src, e) \<in> set (snd (load_files data_files))
        | Inr t \<Rightarrow> t \<in> set (fst (load_files data_files))"
    by (rule load_files_reports)
next
  show "(\<forall>src \<in> set data_files. \<exists>e. try_load src = Inl e)
        \<longleftrightarrow> load_data to_datetime data_files = Inl NoDataLoaded"
    by (simp add: load_data_no_data load_files_none)
qed

theorem C5_bad_file_skipped_witness:
  "try_load (''data/broken_hourly.csv'', Some no_Datetime_frame) = Inl KeyError
   \<and> fst (load_files example_files)
       = fst (load_files [(''data/PJM_hourly.csv'', Some pjm_frame),
                          (''data/aep_hourly.csv'', Some two_column_frame)])
   \<and> (''data/broken_hourly.csv'', KeyError) \<in> set (snd (load_files example_files))
   \<and> load_data iso_datetime [(''data/broken_hourly.csv'', Some no_Datetime_frame)]
       = Inl NoDataLoaded"
proof -
  have ex: "example_files =
      [(''data/PJM_hourly.csv'', Some pjm_frame)]
      @ (''data/broken_hourly.csv'', Some no_Datetime_frame)
      # [(''data/aep_hourly.csv'', Some two_column_frame)]"
    by (simp add: example_files_def)
  note t1 = C5_bad_file_skipped [of "(''data/broken_hourly.csv'', Some no_Datetime_frame)" KeyError
      "[(''data/PJM_hourly.csv'', Some pjm_frame)]"
      "[(''data/aep_hourly.csv'', Some two_column_frame)]" iso_datetime "[]"]
  note t2 = C5_bad_file_skipped [of "(''data/broken_hourly.csv'', Some no_Datetime_frame)" KeyError
      "[]" "[]" iso_datetime "[(''data/broken_hourly.csv'', Some no_Datetime_frame)]"]
  have a: "fst (load_files example_files)
       = fst (load_files [(''data/PJM_hourly.csv'', Some pjm_frame),
                          (''data/aep_hourly.csv'', Some two_column_frame)])"
    unfolding ex using t1 broken_source by simp
  have b: "(''data/broken_hourly.csv'', KeyError) \<in> set (snd (load_files example_files))"
    unfolding ex using t1 broken_source by simp
  have c: "load_data iso_datetime [(''data/broken_hourly.csv'', Some no_Datetime_frame)]
       = Inl NoDataLoaded"
    using t2 broken_source by auto
  show ?thesis
    by (intro conjI broken_source a b c)
qed

section \<open>The outer join: helper lemmas\<close>

lemma filter_key_distinct:
  assumes "distinct (map fst r)"
  shows "filter (\<lambda>m. fst m = k) r = (case map_of r k of None \<Rightarrow> [] | Some ws \<Rightarrow> [(k, ws)])"
proof (cases "map_of r k")
  case None
  then have "k \<notin> fst ` set r" by (simp add: map_of_eq_None_iff)
  then have "\<forall>m \<in> set r. fst m \<noteq> k" by (metis imageI)
  then show ?thesis using None by (simp add: filter_empty_conv)
next
  case (Some ws)
  then show ?thesis using assms by (simp add: map_of_filter_single)
qed

lemma concat_map_single:
  "\<forall>k \<in> set ks. f k = [g k] \<Longrightarrow> concat (map f ks) = map g ks"
  by (induction ks) simp_all

lemma join_keys:
  "set (sort_key sort_rank (remdups (map fst l @ map fst r))) = set (map fst l) \<union> set (map fst r)"
  "distinct (sort_key sort_rank (remdups (map fst l @ map fst r)))"
  by simp_all

lemma merge_rows_distinct:
  assumes "distinct (map fst l)" and "distinct (map fst r)"
  shows "merge_rows nl nr l r =
           map (\<lambda>k. (k, cells_at nl l k @ cells_at nr r k))
             (sort_key sort_rank (remdups (map fst l @ map fst r)))"
proof -
  let ?ks = "sort_key sort_rank (remdups (map fst l @ map fst r))"
  have one: "(let ls = filter (\<lambda>m. fst m = k) l; rs = filter (\<lambda>m. fst m = k) r
              in if rs = [] then map (\<lambda>m. (k, snd m @ replicate nr Null)) ls
                 else if ls = [] then map (\<lambda>m. (k, replicate nl Null @ snd m)) rs
                 else concat (map (\<lambda>m. map (\<lambda>m'. (k, snd m @ snd m')) rs) ls))
             = [(k, cells_at nl l k @ cells_at nr r k)]"
    if "k \<in> set ?ks" for k
  proof -
    from that have "k \<in> set (map fst l) \<or> k \<in> set (map fst r)"
      by simp
    then have "map_of l k \<noteq> None \<or> map_of r k \<noteq> None"
      by (simp add: map_of_eq_None_iff)
    then show ?thesis
      unfolding filter_key_distinct [OF assms(1)] filter_key_distinct [OF assms(2)]
      by (auto simp: cells_at_def split: option.splits)
  qed
  show ?thesis
    unfolding merge_rows_def using one by (intro concat_map_single) blast
qed

lemma merge_rows_keys:
  assumes "distinct (map fst l)" and "distinct (map fst r)"
  shows "map fst (merge_rows nl nr l r) = sort_key sort_rank (remdups (map fst l @ map fst r))"
  unfolding merge_rows_distinct [OF assms] by (simp add: comp_def)

lemma merge_rows_distinct_keys:
  assumes "distinct (map fst l)" "distinct (map fst r)"
  shows "distinct (map fst (merge_rows nl nr l r))"
  unfolding merge_rows_keys [OF assms] by simp

lemma merge_rows_key_set:
  assumes "distinct (map fst l)" "distinct (map fst r)"
  shows "set (map fst (merge_rows nl nr l r)) = set (map fst l) \<union> set (map fst r)"
  unfolding merge_rows_keys [OF assms] by simp

lemma map_of_keyed: "map_of (map (\<lambda>k. (k, h k)) ks) k = (if k \<in> set ks then Some (h k) else None)"
  by (induction ks) auto

lemma merge_rows_cells:
  assumes "distinct (map fst l)" "distinct (map fst r)"
  shows "cells_at (nl + nr) (merge_rows nl nr l r) k = cells_at nl l k @ cells_at nr r k"
proof (cases "k \<in> set (map fst l) \<union> set (map fst r)")
  case True
  then show ?thesis
    unfolding merge_rows_distinct [OF assms] cells_at_def [of "nl + nr"] map_of_keyed
    by simp
next
  case False
  then have "map_of l k = None" "map_of r k = None"
    by (simp_all add: map_of_eq_None_iff)
  with False show ?thesis
    unfolding merge_rows_distinct [OF assms] cells_at_def map_of_keyed
    by (simp add: replicate_add)
qed

lemma sum_list_keyed:
  assumes "distinct ks" and "set (map fst l) \<subseteq> set ks"
  shows "(\<Sum>k\<leftarrow>ks. mset (map f (filter (\<lambda>m. fst m = k) l))) = mset (map f l)"
  using assms(2)
proof (induction l)
  case Nil
  then show ?case by (simp add: sum_list_0)
next
  case (Cons x l)
  from Cons.prems have x: "fst x \<in> set ks" and sub: "set (map fst l) \<subseteq> set ks"
    by simp_all
  have "(\<Sum>k\<leftarrow>ks. mset (map f (filter (\<lambda>m. fst m = k) (x # l))))
        = (\<Sum>k\<leftarrow>ks. (if k = fst x then {#f x#} else {#})
                    + mset (map f (filter (\<lambda>m. fst m = k) l)))"
    by (intro arg_cong [where f = sum_list] map_cong refl) auto
  also have "\<dots> = (\<Sum>k\<leftarrow>ks. if k = fst x then {#f x#} else {#})
                  + (\<Sum>k\<leftarrow>ks. mset (map f (filter (\<lambda>m. fst m = k) l)))"
    by (simp add: sum_list_addf)
  also have "(\<Sum>k\<leftarrow>ks. if k = fst x then {#f x#} else {#}) = {#f x#}"
    using assms(1) x by (simp add: sum_list_distinct_conv_sum_set sum.delta)
  finally show ?case
    using Cons.IH [OF sub] by simp
qed

lemma merge_rows_disjoint:
  assumes "set (map fst l) \<inter> set (map fst r) = {}"
  shows "mset (merge_rows nl nr l r) =
           mset (map (\<lambda>m. (fst m, snd m @ replicate nr Null)) l)
           + mset (map (\<lambda>m. (fst m, replicate nl Null @ snd m)) r)"
proof -
  let ?ks = "sort_key sort_rank (remdups (map fst l @ map fst r))"
  let ?padl = "\<lambda>m. (fst m, snd m @ replicate nr Null)"
  let ?padr = "\<lambda>m. (fst m, replicate nl Null @ snd m)"
  have body: "(let ls = filter (\<lambda>m. fst m = k) l; rs = filter (\<lambda>m. fst m = k) r
              in if rs = [] then map (\<lambda>m. (k, snd m @ replicate nr Null)) ls
                 else if ls = [] then map (\<lambda>m. (k, replicate nl Null @ snd m)) rs
                 else concat (map (\<lambda>m. map (\<lambda>m'. (k, snd m @ snd m')) rs) ls))
             = map ?padl (filter (\<lambda>m. fst m = k) l) @ map ?padr (filter (\<lambda>m. fst m = k) r)"
    for k
  proof (cases "filter (\<lambda>m. fst m = k) r = []")
    case True
    have "map (\<lambda>m. (k, snd m @ replicate nr Null)) (filter (\<lambda>m. fst m = k) l)
          = map ?padl (filter (\<lambda>m. fst m = k) l)"
      by (intro map_cong refl) auto
    then show ?thesis using True by simp
  next
    case False
    then obtain m where "m \<in> set r" "fst m = k"
      by (auto simp: filter_empty_conv)
    then have "k \<in> set (map fst r)" by force
    with assms have "k \<notin> set (map fst l)" by blast
    then have "\<forall>m \<in> set l. fst m \<noteq> k" by force
    then have e: "filter (\<lambda>m. fst m = k) l = []"
      by (simp add: filter_empty_conv)
    have "map (\<lambda>m. (k, replicate nl Null @ snd m)) (filter (\<lambda>m. fst m = k) r)
          = map ?padr (filter (\<lambda>m. fst m = k) r)"
      by (intro map_cong refl) auto
    then show ?thesis using False e by simp
  qed
  have "mset (merge_rows nl nr l r)
        = (\<Sum>k\<leftarrow>?ks. mset (map ?padl (filter (\<lambda>m. fst m = k) l))
                     + mset (map ?padr (filter (\<lambda>m. fst m = k) r)))"
    unfolding merge_rows_def body by (simp add: mset_concat comp_def)
  also have "\<dots> = (\<Sum>k\<leftarrow>?ks. mset (map ?padl (filter (\<lambda>m. fst m = k) l)))
                  + (\<Sum>k\<leftarrow>?ks. mset (map ?padr (filter (\<lambda>m. fst m = k) r)))"
    by (simp add: sum_list_addf)
  also have "(\<Sum>k\<leftarrow>?ks. mset (map ?padl (filter (\<lambda>m. fst m = k) l))) = mset (map ?padl l)"
    by (intro sum_list_keyed) simp_all
  also have "(\<Sum>k\<leftarrow>?ks. mset (map ?padr (filter (\<lambda>m. fst m = k) r))) = mset (map ?padr r)"
    by (intro sum_list_keyed) simp_all
  finally show ?thesis .
qed

section \<open>load_data: helper lemmas\<close>

lemma iso_ex1: "iso_datetime (Txt ''2020-12-31 23:00:00'')
   = Some \<lparr>year = 2020, month = 12, day = 31, hour = 23, minute = 0, second = 0\<rparr>"
  by code_simp

lemma iso_ex2: "iso_datetime (Txt ''2021-01-01 00:00:00'')
   = Some \<lparr>year = 2021, month = 1, day = 1, hour = 0, minute = 0, second = 0\<rparr>"
  by code_simp

lemma iso_ex3: "iso_datetime (Txt ''2021-01-01 01:00:00'')
   = Some \<lparr>year = 2021, month = 1, day = 1, hour = 1, minute = 0, second = 0\<rparr>"
  by code_simp

lemma iso_ex4: "iso_datetime (Txt ''2021-11-07 01:00:00'')
   = Some \<lparr>year = 2021, month = 11, day = 7, hour = 1, minute = 0, second = 0\<rparr>"
  by code_simp

lemma example_loaded:
  "load_files example_files =
     ([\<lparr>cols = [''PJM_MW''],
          rws = [(Txt ''2020-12-31 23:00:00'', [Num 80]), (Txt ''2021-01-01 00:00:00'', [Num 100]),
                 (Txt ''2021-01-01 01:00:00'', [Num 120])]\<rparr>,
       \<lparr>cols = [''AEP_MW''], rws = [(Txt ''2021-01-01 00:00:00'', [Num 50])]\<rparr>],
      [(''data/broken_hourly.csv'', KeyError)])"
  by (simp add: example_files_def pjm_source broken_source aep_source)

lemma example_merged:
  "merge \<lparr>cols = [''PJM_MW''],
          rws = [(Txt ''2020-12-31 23:00:00'', [Num 80]), (Txt ''2021-01-01 00:00:00'', [Num 100]),
                 (Txt ''2021-01-01 01:00:00'', [Num 120])]\<rparr>
       \<lparr>cols = [''AEP_MW''], rws = [(Txt ''2021-01-01 00:00:00'', [Num 50])]\<rparr>
   = Inr \<lparr>cols = [''PJM_MW'', ''AEP_MW''],
          rws = [(Txt ''2020-12-31 23:00:00'', [Num 80, Null]),
                 (Txt ''2021-01-01 00:00:00'', [Num 100, Num 50]),
                 (Txt ''2021-01-01 01:00:00'', [Num 120, Null])]\<rparr>"
  by (simp add: merge_def merge_names_def suffixed_def new_dups_def merge_rows_def
      text_keys_def is_text_def sort_rank_def)

lemma example_load_data: "load_data iso_datetime example_files = Inr example_df"
  by (simp add: load_data_def example_loaded example_merged iso_ex1 iso_ex2 iso_ex3 example_df_def)

lemma merge_Inr:
  assumes "merge a b = Inr m"
  shows "rws m = merge_rows (length (cols a)) (length (cols b)) (rws a) (rws b)"
    and "length (cols m) = length (cols a) + length (cols b)"
    and "cols m = suffixed (cols a) (cols b) ''_x'' @ suffixed (cols b) (cols a) ''_y''"
  using assms
  by (auto simp: merge_def merge_names_def Let_def suffixed_def split: sum.splits if_splits)

lemma joined_Cons: "joined (t # ts) k = cells_at (length (cols t)) (rws t) k @ joined ts k"
  by (simp add: joined_def)

lemma merge_all_invariant:
  assumes "merge_all df others = Inr m"
    and "\<forall>t \<in> set others. distinct (map fst (rws t))"
    and "distinct (map fst (rws df))"
  shows "distinct (map fst (rws m))
       \<and> keys m = keys df \<union> (\<Union>t \<in> set others. keys t)
       \<and> (\<forall>k. cells_at (length (cols m)) (rws m) k
               = cells_at (length (cols df)) (rws df) k @ joined others k)"
  using assms
proof (induction others arbitrary: df)
  case Nil
  then show ?case by (simp add: joined_def)
next
  case (Cons b others)
  from Cons.prems(1) obtain df' where m1: "merge df b = Inr df'"
    and rest: "merge_all df' others = Inr m"
    by (auto split: sum.splits)
  have db: "distinct (map fst (rws b))"
    using Cons.prems(2) by simp
  note r = merge_Inr [OF m1]
  have d': "distinct (map fst (rws df'))"
    unfolding r(1) using Cons.prems(3) db by (rule merge_rows_distinct_keys)
  have k': "keys df' = keys df \<union> keys b"
    unfolding keys_def r(1) using Cons.prems(3) db by (rule merge_rows_key_set)
  have c': "cells_at (length (cols df')) (rws df') k
              = cells_at (length (cols df)) (rws df) k @ cells_at (length (cols b)) (rws b) k" for k
    unfolding r(1) r(2) using Cons.prems(3) db by (rule merge_rows_cells)
  from Cons.IH [OF rest _ d'] Cons.prems(2)
  have ih: "distinct (map fst (rws m))"
    "keys m = keys df' \<union> (\<Union>t \<in> set others. keys t)"
    "\<And>k. cells_at (length (cols m)) (rws m) k
               = cells_at (length (cols df')) (rws df') k @ joined others k"
    by auto
  show ?case
    using ih(1) ih(2) k' by (auto simp: ih(3) c' joined_Cons)
qed

lemma parse_rows_Inr:
  "parse_rows p rs = Inr ns \<Longrightarrow>
   ns = map (\<lambda>(k, vs). \<lparr>Datetime = the (p k), vals = vs\<rparr>) rs
   \<and> (\<forall>k \<in> set (map fst rs). p k \<noteq> None)"
proof (induction rs arbitrary: ns)
  case Nil
  then show ?case by simp
next
  case (Cons r rs)
  obtain k vs where r: "r = (k, vs)" by (cases r)
  from Cons.prems obtain t ns' where t: "p k = Some t"
    and ns': "parse_rows p rs = Inr ns'" and ns: "ns = \<lparr>Datetime = t, vals = vs\<rparr> # ns'"
    by (auto simp: r split: option.splits sum.splits)
  from Cons.IH [OF ns'] show ?case
    by (simp add: r t ns)
qed

lemma load_data_Inr:
  assumes "load_data p data_files = Inr df"
  shows "\<exists>d ds m. fst (load_files data_files) = d # ds \<and> merge_all d ds = Inr m
           \<and> vcols df = cols m
           \<and> rows df = map (\<lambda>(k, vs). \<lparr>Datetime = the (p k), vals = vs\<rparr>)
                          (filter (\<lambda>m. fst m \<noteq> Null) (rws m))
           \<and> undated df = map snd (filter (\<lambda>m. fst m = Null) (rws m))
           \<and> (\<forall>k \<in> keys m - {Null}. p k \<noteq> None)"
proof -
  from assms obtain d ds m rs where
    l: "fst (load_files data_files) = d # ds" and m: "merge_all d ds = Inr m"
    and pr: "parse_rows p (filter (\<lambda>m. fst m \<noteq> Null) (rws m)) = Inr rs"
    and df: "df = \<lparr>vcols = cols m, rows = rs,
                   undated = map snd (filter (\<lambda>m. fst m = Null) (rws m))\<rparr>"
    by (auto simp: load_data_def split: list.splits sum.splits)
  have ks: "set (map fst (filter (\<lambda>m. fst m \<noteq> Null) (rws m))) = keys m - {Null}"
    by (auto simp: keys_def)
  from parse_rows_Inr [OF pr]
  have rs: "rs = map (\<lambda>(k, vs). \<lparr>Datetime = the (p k), vals = vs\<rparr>)
                   (filter (\<lambda>m. fst m \<noteq> Null) (rws m))"
    and some: "\<forall>k \<in> keys m - {Null}. p k \<noteq> None"
    unfolding ks by blast+
  show ?thesis
    using l m some by (intro exI [of _ d] exI [of _ ds] exI [of _ m]) (simp add: df rs)
qed

lemma inj_on_the:
  assumes "inj_on p K" "\<forall>k \<in> K. p k \<noteq> None"
  shows "inj_on (\<lambda>k. the (p k)) K"
proof (rule inj_onI)
  fix x y assume x: "x \<in> K" and y: "y \<in> K" and e: "the (p x) = the (p y)"
  from x y assms(2) obtain a b where "p x = Some a" "p y = Some b" by blast
  with e have "p x = p y" by simp
  with assms(1) x y show "x = y" by (simp add: inj_on_def)
qed

lemma Datetime_of_rows:
  "map Datetime (map (\<lambda>(k, vs). \<lparr>Datetime = the (p k), vals = vs\<rparr>) rs)
     = map (\<lambda>k. the (p k)) (map fst rs)"
  by (simp add: comp_def case_prod_beta)

lemma vals_of_rows:
  "map vals (map (\<lambda>(k, vs). \<lparr>Datetime = the (p k), vals = vs\<rparr>) rs) = map snd rs"
  by (simp add: comp_def case_prod_beta)

lemma split_by_key:
  "mset (map snd (filter (\<lambda>m. fst m \<noteq> Null) rs)) + mset (map snd (filter (\<lambda>m. fst m = Null) rs))
     = mset (map snd rs)"
  by (induction rs) auto

lemma length_by_key:
  "length (filter (\<lambda>m. fst m \<noteq> k) rs) + length (filter (\<lambda>m. fst m = k) rs) = length rs"
  by (induction rs) auto

lemma load_data_distinct_sources:
  assumes ld: "load_data p data_files = Inr df"
    and ds: "\<forall>t \<in> set (fst (load_files data_files)). distinct (map fst (rws t))"
    and inj: "inj_on p ((\<Union>t \<in> set (fst (load_files data_files)). keys t) - {Null})"
  shows "distinct (map Datetime (rows df))"
    and "set (map Datetime (rows df))
           = (\<lambda>k. the (p k)) ` ((\<Union>t \<in> set (fst (load_files data_files)). keys t) - {Null})"
    and "length (rows df) + length (undated df)
           = card (\<Union>t \<in> set (fst (load_files data_files)). keys t)"
    and "\<forall>r \<in> set (rows df). \<exists>k \<in> (\<Union>t \<in> set (fst (load_files data_files)). keys t).
           p k = Some (Datetime r) \<and> vals r = joined (fst (load_files data_files)) k"
    and "\<forall>u \<in> set (undated df). u = joined (fst (load_files data_files)) Null"
proof -
  let ?K = "\<Union>t \<in> set (fst (load_files data_files)). keys t"
  let ?dated = "\<lambda>rs. filter (\<lambda>m. fst m \<noteq> Null) rs"
  from load_data_Inr [OF ld] obtain d dss m where
    l: "fst (load_files data_files) = d # dss" and m: "merge_all d dss = Inr m"
    and rw: "rows df = map (\<lambda>(k, vs). \<lparr>Datetime = the (p k), vals = vs\<rparr>) (?dated (rws m))"
    and un: "undated df = map snd (filter (\<lambda>m. fst m = Null) (rws m))"
    and some: "\<forall>k \<in> keys m - {Null}. p k \<noteq> None"
    by blast
  from ds l have d1: "\<forall>t \<in> set dss. distinct (map fst (rws t))" and d2: "distinct (map fst (rws d))"
    by simp_all
  from merge_all_invariant [OF m d1 d2]
  have dm: "distinct (map fst (rws m))"
    and km: "keys m = ?K"
    and cm: "\<And>k. cells_at (length (cols m)) (rws m) k = joined (d # dss) k"
    by (auto simp: l joined_Cons)
  have ks: "set (map fst (?dated (rws m))) = keys m - {Null}"
    by (auto simp: keys_def)
  have dd: "distinct (map fst (?dated (rws m)))"
    using dm by (simp add: distinct_map_filter)
  have inj': "inj_on (\<lambda>k. the (p k)) (set (map fst (?dated (rws m))))"
    unfolding ks using inj_on_the [of p "keys m - {Null}"] inj some km by simp
  show "distinct (map Datetime (rows df))"
    unfolding rw Datetime_of_rows using dd inj' by (subst distinct_map) blast
  show "set (map Datetime (rows df)) = (\<lambda>k. the (p k)) ` (?K - {Null})"
    unfolding rw Datetime_of_rows km [symmetric] ks [symmetric] by (simp add: image_image)
  have "length (rows df) + length (undated df) = length (map fst (rws m))"
    unfolding rw un using length_by_key [of Null "rws m"] by simp
  also have "\<dots> = card (set (map fst (rws m)))"
    using dm by (rule distinct_card [symmetric])
  finally show "length (rows df) + length (undated df) = card ?K"
    using km by (simp add: keys_def)
  have cell: "vs = joined (fst (load_files data_files)) k" if "(k, vs) \<in> set (rws m)" for k vs
  proof -
    from dm that have "map_of (rws m) k = Some vs" by simp
    then have "cells_at (length (cols m)) (rws m) k = vs"
      by (simp add: cells_at_def)
    with cm show ?thesis by (simp add: l)
  qed
  show "\<forall>r \<in> set (rows df). \<exists>k \<in> ?K.
           p k = Some (Datetime r) \<and> vals r = joined (fst (load_files data_files)) k"
  proof
    fix r assume "r \<in> set (rows df)"
    then obtain k vs where kv: "(k, vs) \<in> set (rws m)" and nn: "k \<noteq> Null"
      and r: "r = \<lparr>Datetime = the (p k), vals = vs\<rparr>"
      unfolding rw by auto
    from kv have kin: "k \<in> keys m"
      by (force simp: keys_def)
    with some nn obtain t where t: "p k = Some t" by auto
    from cell [OF kv] kin km t r show "\<exists>k \<in> ?K.
           p k = Some (Datetime r) \<and> vals r = joined (fst (load_files data_files)) k"
      by auto
  qed
  show "\<forall>u \<in> set (undated df). u = joined (fst (load_files data_files)) Null"
  proof
    fix u assume "u \<in> set (undated df)"
    then have "(Null, u) \<in> set (rws m)"
      unfolding un by auto
    then show "u = joined (fst (load_files data_files)) Null"
      by (rule cell)
  qed
qed

lemma load_data_disjoint_pair:
  assumes ld: "load_data p data_files = Inr df"
    and two: "fst (load_files data_files) = [a, b]"
    and dj: "keys a \<inter> keys b = {}"
  shows "length (rows df) + length (undated df) = length (rws a) + length (rws b)"
    and "mset (map vals (rows df)) + mset (undated df)
           = mset (map (\<lambda>m. snd m @ replicate (length (cols b)) Null) (rws a))
             + mset (map (\<lambda>m. replicate (length (cols a)) Null @ snd m) (rws b))"
proof -
  from load_data_Inr [OF ld] two obtain m where
    m: "merge a b = Inr m"
    and rw: "rows df = map (\<lambda>(k, vs). \<lparr>Datetime = the (p k), vals = vs\<rparr>)
                         (filter (\<lambda>m. fst m \<noteq> Null) (rws m))"
    and un: "undated df = map snd (filter (\<lambda>m. fst m = Null) (rws m))"
    by (auto split: sum.splits)
  have rm: "mset (rws m)
      = mset (map (\<lambda>m. (fst m, snd m @ replicate (length (cols b)) Null)) (rws a))
        + mset (map (\<lambda>m. (fst m, replicate (length (cols a)) Null @ snd m)) (rws b))"
    unfolding merge_Inr(1) [OF m] using dj unfolding keys_def by (rule merge_rows_disjoint)
  have "length (rows df) + length (undated df) = length (rws m)"
    unfolding rw un using length_by_key [of Null "rws m"] by simp
  also have "\<dots> = size (mset (rws m))"
    by simp
  finally show "length (rows df) + length (undated df) = length (rws a) + length (rws b)"
    unfolding rm by simp
  have "mset (map vals (rows df)) + mset (undated df) = mset (map snd (rws m))"
    unfolding rw un vals_of_rows by (rule split_by_key)
  also have "\<dots> = image_mset snd (mset (rws m))"
    by simp
  finally show "mset (map vals (rows df)) + mset (undated df)
           = mset (map (\<lambda>m. snd m @ replicate (length (cols b)) Null) (rws a))
             + mset (map (\<lambda>m. replicate (length (cols a)) Null @ snd m) (rws b))"
    unfolding rm by (simp add: multiset.map_comp comp_def)
qed

lemma repeated_source:
  "try_load (''data/PJM_hourly.csv'', Some repeated_frame) =
     Inr \<lparr>cols = [''PJM_MW''],
          rws = [(Txt ''2021-11-07 01:00:00'', [Num 100]),
                 (Txt ''2021-11-07 01:00:00'', [Num 120])]\<rparr>"
  by (simp add: try_load_def repeated_frame_def canonicalize_two region_PJM)

lemma repeated_load_data:
  "load_data iso_datetime [(''data/PJM_hourly.csv'', Some repeated_frame)] =
     Inr \<lparr>vcols = [''PJM_MW''],
          rows =
            [\<lparr>Datetime = \<lparr>year = 2021, month = 11, day = 7, hour = 1, minute = 0, second = 0\<rparr>,
              vals = [Num 100]\<rparr>,
             \<lparr>Datetime = \<lparr>year = 2021, month = 11, day = 7, hour = 1, minute = 0, second = 0\<rparr>,
              vals = [Num 120]\<rparr>],
          undated = []\<rparr>"
  by (simp add: load_data_def repeated_source iso_ex4)

lemma disjoint_loaded:
  "load_files disjoint_files =
     ([\<lparr>cols = [''PJM_MW''],
          rws = [(Txt ''2021-11-07 01:00:00'', [Num 100]),
                 (Txt ''2021-11-07 01:00:00'', [Num 120])]\<rparr>,
       \<lparr>cols = [''AEP_MW''], rws = [(Txt ''2021-01-01 00:00:00'', [Num 50])]\<rparr>],
      [])"
  by (simp add: disjoint_files_def repeated_source aep_source)

lemma disjoint_merged:
  "merge \<lparr>cols = [''PJM_MW''],
          rws = [(Txt ''2021-11-07 01:00:00'', [Num 100]),
                 (Txt ''2021-11-07 01:00:00'', [Num 120])]\<rparr>
       \<lparr>cols = [''AEP_MW''], rws = [(Txt ''2021-01-01 00:00:00'', [Num 50])]\<rparr>
   = Inr \<lparr>cols = [''PJM_MW'', ''AEP_MW''],
          rws = [(Txt ''2021-01-01 00:00:00'', [Null, Num 50]),
                 (Txt ''2021-11-07 01:00:00'', [Num 100, Null]),
                 (Txt ''2021-11-07 01:00:00'', [Num 120, Null])]\<rparr>"
  by (simp add: merge_def merge_names_def suffixed_def new_dups_def merge_rows_def
      text_keys_def is_text_def sort_rank_def)

lemma disjoint_load_data: "load_data iso_datetime disjoint_files = Inr disjoint_df"
  by (simp add: load_data_def disjoint_loaded disjoint_merged iso_ex4 iso_ex2 disjoint_df_def)

lemma example_keys:
  "(\<Union>t \<in> set (fst (load_files example_files)). keys t)
     = {Txt ''2020-12-31 23:00:00'', Txt ''2021-01-01 00:00:00'', Txt ''2021-01-01 01:00:00''}"
  by (auto simp: example_loaded keys_def)

lemma example_keys_distinct:
  "\<forall>t \<in> set (fst (load_files example_files)). distinct (map fst (rws t))"
  by (simp add: example_loaded)

lemma example_keys_inj:
  "inj_on iso_datetime ((\<Union>t \<in> set (fst (load_files example_files)). keys t) - {Null})"
  unfolding example_keys by (simp add: iso_ex1 iso_ex2 iso_ex3)

section \<open>load_data: the rows of the merged frame\<close>

text \<open>
  C1, as the code has it. Let load_data return a frame. When no loaded source repeats a
  \<open>Datetime\<close> cell, and distinct cells are read as distinct timestamps, the frame has
  exactly one row for each \<open>Datetime\<close> cell of the union of the sources: the timestamps
  of its dated rows are distinct, they are those of the cells of the union, and the
  number of rows, the one without a timestamp included, is the number of distinct cells.
  Each row holds, for every source in load order, the value that source has at the
  row's \<open>Datetime\<close> cell, and null where it has none. Two sources with no \<open>Datetime\<close>
  cell in common give as many rows as both have together, repeated timestamps included:
  the rows of the one and of the other, each padded with nulls in the columns of the
  other source, in some order.
\<close>

theorem C1_outer_join_rows:
  assumes "load_data to_datetime data_files = Inr df"
  shows "((\<forall>t \<in> set (fst (load_files data_files)). distinct (map fst (rws t)))
          \<and> inj_on to_datetime ((\<Union>t \<in> set (fst (load_files data_files)). keys t) - {Null}) \<longrightarrow>
            distinct (map Datetime (rows df))
          \<and> set (map Datetime (rows df))
              = (\<lambda>k. the (to_datetime k))
                  ` ((\<Union>t \<in> set (fst (load_files data_files)). keys t) - {Null})
          \<and> length (rows df) + length (undated df)
              = card (\<Union>t \<in> set (fst (load_files data_files)). keys t)
          \<and> (\<forall>r \<in> set (rows df). \<exists>k \<in> (\<Union>t \<in> set (fst (load_files data_files)). keys t).
                to_datetime k = Some (Datetime r)
                \<and> vals r = joined (fst (load_files data_files)) k)
          \<and> (\<forall>u \<in> set (undated df). u = joined (fst (load_files data_files)) Null))
       \<and> (\<forall>a b. fst (load_files data_files) = [a, b] \<and> keys a \<inter> keys b = {} \<longrightarrow>
            length (rows df) + length (undated df) = length (rws a) + length (rws b)
          \<and> mset (map vals (rows df)) + mset (undated df)
              = mset (map (\<lambda>m. snd m @ replicate (length (cols b)) Null) (rws a))
                + mset (map (\<lambda>m. replicate (length (cols a)) Null @ snd m) (rws b)))"
proof (intro conjI impI allI)
  assume h: "(\<forall>t \<in> set (fst (load_files data_files)). distinct (map fst (rws t)))
          \<and> inj_on to_datetime ((\<Union>t \<in> set (fst (load_files data_files)). keys t) - {Null})"
  then have ds: "\<forall>t \<in> set (fst (load_files data_files)). distinct (map fst (rws t))"
    and inj: "inj_on to_datetime ((\<Union>t \<in> set (fst (load_files data_files)). keys t) - {Null})"
    by simp_all
  show "distinct (map Datetime (rows df))"
    using assms ds inj by (rule load_data_distinct_sources(1))
  show "set (map Datetime (rows df))
              = (\<lambda>k. the (to_datetime k))
                  ` ((\<Union>t \<in> set (fst (load_files data_files)). keys t) - {Null})"
    using assms ds inj by (rule load_data_distinct_sources(2))
  show "length (rows df) + length (undated df)
              = card (\<Union>t \<in> set (fst (load_files data_files)). keys t)"
    using assms ds inj by (rule load_data_distinct_sources(3))
  show "\<forall>r \<in> set (rows df). \<exists>k \<in> (\<Union>t \<in> set (fst (load_files data_files)). keys t).
                to_datetime k = Some (Datetime r)
                \<and> vals r = joined (fst (load_files data_files)) k"
    using assms ds inj by (rule load_data_distinct_sources(4))
  show "\<forall>u \<in> set (undated df). u = joined (fst (load_files data_files)) Null"
    using assms ds inj by (rule load_data_distinct_sources(5))
next
  fix a b
  assume h: "fst (load_files data_files) = [a, b] \<and> keys a \<inter> keys b = {}"
  then have two: "fst (load_files data_files) = [a, b]" and dj: "keys a \<inter> keys b = {}"
    by simp_all
  show "length (rows df) + length (undated df) = length (rws a) + length (rws b)"
    using assms two dj by (rule load_data_disjoint_pair(1))
  show "mset (map vals (rows df)) + mset (undated df)
              = mset (map (\<lambda>m. snd m @ replicate (length (cols b)) Null) (rws a))
                + mset (map (\<lambda>m. replicate (length (cols a)) Null @ snd m) (rws b))"
    using assms two dj by (rule load_data_disjoint_pair(2))
qed

theorem C1_outer_join_rows_witness:
  "load_data iso_datetime example_files = Inr example_df
   \<and> map (\<lambda>t. map fst (rws t)) (fst (load_files example_files))
       = [[Txt ''2020-12-31 23:00:00'', Txt ''2021-01-01 00:00:00'', Txt ''2021-01-01 01:00:00''],
          [Txt ''2021-01-01 00:00:00'']]
   \<and> inj_on iso_datetime ((\<Union>t \<in> set (fst (load_files example_files)). keys t) - {Null})
   \<and> distinct (map Datetime (rows example_df))
   \<and> length (rows example_df) + length (undated example_df)
       = card (\<Union>t \<in> set (fst (load_files example_files)). keys t)
   \<and> load_data iso_datetime disjoint_files = Inr disjoint_df
   \<and> map (\<lambda>t. map fst (rws t)) (fst (load_files disjoint_files))
       = [[Txt ''2021-11-07 01:00:00'', Txt ''2021-11-07 01:00:00''],
          [Txt ''2021-01-01 00:00:00'']]
   \<and> length (rows disjoint_df) + length (undated disjoint_df) = 2 + 1"
proof -
  note t1 = C1_outer_join_rows [OF example_load_data]
  note t2 = C1_outer_join_rows [OF disjoint_load_data]
  have a: "distinct (map Datetime (rows example_df))"
    "length (rows example_df) + length (undated example_df)
       = card (\<Union>t \<in> set (fst (load_files example_files)). keys t)"
    using t1 example_keys_distinct example_keys_inj by blast+
  have dj: "fst (load_files disjoint_files) =
      [\<lparr>cols = [''PJM_MW''],
          rws = [(Txt ''2021-11-07 01:00:00'', [Num 100]),
                 (Txt ''2021-11-07 01:00:00'', [Num 120])]\<rparr>,
       \<lparr>cols = [''AEP_MW''], rws = [(Txt ''2021-01-01 00:00:00'', [Num 50])]\<rparr>]
     \<and> keys \<lparr>cols = [''PJM_MW''],
          rws = [(Txt ''2021-11-07 01:00:00'', [Num 100]),
                 (Txt ''2021-11-07 01:00:00'', [Num 120])]\<rparr>
       \<inter> keys \<lparr>cols = [''AEP_MW''], rws = [(Txt ''2021-01-01 00:00:00'', [Num 50])]\<rparr> = {}"
    by (simp add: disjoint_loaded keys_def)
  from t2 dj have b: "length (rows disjoint_df) + length (undated disjoint_df) = 2 + 1"
    by fastforce
  have ks: "map (\<lambda>t. map fst (rws t)) (fst (load_files example_files))
       = [[Txt ''2020-12-31 23:00:00'', Txt ''2021-01-01 00:00:00'', Txt ''2021-01-01 01:00:00''],
          [Txt ''2021-01-01 00:00:00'']]"
    by (simp add: example_loaded)
  have kd: "map (\<lambda>t. map fst (rws t)) (fst (load_files disjoint_files))
       = [[Txt ''2021-11-07 01:00:00'', Txt ''2021-11-07 01:00:00''],
          [Txt ''2021-01-01 00:00:00'']]"
    by (simp add: disjoint_loaded)
  show ?thesis
    by (intro conjI example_load_data ks example_keys_inj a disjoint_load_data kd b)
qed

text \<open>
  The claim as stated fails for a source that repeats a timestamp, as the hourly files
  do when the clocks go back: the frame then has two rows at that timestamp.
\<close>

theorem C1_counterexample:
  "load_data iso_datetime [(''data/PJM_hourly.csv'', Some repeated_frame)] =
     Inr \<lparr>vcols = [''PJM_MW''],
          rows =
            [\<lparr>Datetime = \<lparr>year = 2021, month = 11, day = 7, hour = 1, minute = 0, second = 0\<rparr>,
              vals = [Num 100]\<rparr>,
             \<lparr>Datetime = \<lparr>year = 2021, month = 11, day = 7, hour = 1, minute = 0, second = 0\<rparr>,
              vals = [Num 120]\<rparr>],
          undated = []\<rparr>"
  by (rule repeated_load_data)

section \<open>Region selection: helper lemmas\<close>

lemma upper_char_underscore: "upper_char c = CHR ''_'' \<longleftrightarrow> c = CHR ''_''"
proof -
  define n :: nat where "n = of_char c"
  have u: "upper_char c = (if 97 \<le> n \<and> n \<le> 122 then char_of (n - 32) else c)"
    by (simp add: upper_char_def n_def)
  show ?thesis
  proof (cases "97 \<le> n \<and> n \<le> 122")
    case True
    have "char_of (n - 32) \<noteq> CHR ''_''"
    proof
      assume "char_of (n - 32) = CHR ''_''"
      then have "(of_char (char_of (n - 32) :: char) :: nat) = of_char CHR ''_''"
        by simp
      then have m: "(n - 32) mod 256 = 95"
        by (simp add: of_char_of)
      have "n - 32 < 256"
        using True by arith
      then have "(n - 32) mod 256 = n - 32"
        by (rule mod_less)
      with m True show False by arith
    qed
    moreover have "c \<noteq> CHR ''_''"
      using True by (auto simp: n_def)
    ultimately show ?thesis
      unfolding u using True by auto
  next
    case False
    then show ?thesis unfolding u by auto
  qed
qed

lemma split_nonempty: "split sep s \<noteq> []"
  by (induction s) (auto split: list.splits)

lemma hd_split: "hd (split sep s) = takeWhile (\<lambda>c. c \<noteq> sep) s"
proof (induction s)
  case Nil
  then show ?case by simp
next
  case (Cons c s)
  then show ?case
    using split_nonempty [of sep s] by (auto split: list.splits)
qed

lemma region_of_eq:
  "region_of file = upper (takeWhile (\<lambda>c. c \<noteq> CHR ''_'') (basename file))"
  by (simp add: region_of_def hd_split)

lemma region_no_underscore: "CHR ''_'' \<notin> set (region_of file)"
proof
  assume "CHR ''_'' \<in> set (region_of file)"
  then obtain c where c: "c \<in> set (takeWhile (\<lambda>c. c \<noteq> CHR ''_'') (basename file))"
    and u: "upper_char c = CHR ''_''"
    by (auto simp: region_of_eq upper_def)
  from c have "c \<noteq> CHR ''_''"
    by (auto dest: set_takeWhileD)
  with u show False
    by (simp add: upper_char_underscore)
qed

lemma replace_suffix:
  "CHR ''_'' \<notin> set R \<Longrightarrow> replace ''_MW'' [] (R @ ''_MW'') = R"
  by (induction R) auto

lemma endswith_suffix: "endswith (R @ ''_MW'') ''_MW''"
  by (simp add: endswith_def)

lemma strip_suffix: "take (length (R @ ''_MW'') - 3) (R @ ''_MW'') = R"
  by simp

lemma endswith_last:
  assumes "endswith s suf" "suf \<noteq> []"
  shows "last s = last suf"
proof -
  from assms have d: "drop (length s - length suf) s = suf" and l: "length suf \<le> length s"
    by (simp_all add: endswith_def)
  from assms(2) l have "length s - length suf < length s"
    by (cases suf) auto
  then have "last (drop (length s - length suf) s) = last s"
    by (rule last_drop)
  with d show ?thesis by simp
qed

lemma not_endswith_x: "\<not> endswith (c @ ''_x'') ''_MW''"
  using endswith_last [of "c @ ''_x''" "''_MW''"] by auto

lemma not_endswith_y: "\<not> endswith (c @ ''_y'') ''_MW''"
  using endswith_last [of "c @ ''_y''" "''_MW''"] by auto

lemma canonicalize_cols:
  "canonicalize file f = Inr t \<Longrightarrow> cols t = [region_of file @ ''_MW'']"
  by (drule canonicalize_Inr) auto

lemma try_load_cols:
  "try_load src = Inr t \<Longrightarrow> cols t = [region_of (fst src) @ ''_MW'']"
  by (auto simp: try_load_def split: option.splits dest: canonicalize_cols)

lemma loaded_cols:
  "map cols (fst (load_files data_files))
     = map (\<lambda>src. [region_of (fst src) @ ''_MW''])
         (filter (\<lambda>src. \<not> isl (try_load src)) data_files)"
proof (induction data_files)
  case Nil
  then show ?case by simp
next
  case (Cons x xs)
  show ?case
  proof (cases "try_load x")
    case (Inl e)
    then show ?thesis
      using Cons by (simp add: load_files_Cons del: load_files.simps(2))
  next
    case (Inr t)
    then show ?thesis
      using Cons try_load_cols [OF Inr]
      by (simp add: load_files_Cons del: load_files.simps(2))
  qed
qed

lemma suffixed_endswith:
  assumes "c \<in> set (suffixed own other suf)" "endswith c ''_MW''"
    and "suf = ''_x'' \<or> suf = ''_y''"
  shows "c \<in> set own"
proof -
  from assms(1) obtain c' where c': "c' \<in> set own"
    and c: "c = (if c' \<in> set other then c' @ suf else c')"
    by (auto simp: suffixed_def)
  show ?thesis
  proof (cases "c' \<in> set other")
    case True
    with c assms(2,3) show ?thesis
      using not_endswith_x not_endswith_y by auto
  next
    case False
    with c c' show ?thesis by simp
  qed
qed

lemma merge_cols_endswith:
  assumes "merge a b = Inr m" "c \<in> set (cols m)" "endswith c ''_MW''"
  shows "c \<in> set (cols a) \<union> set (cols b)"
  using assms suffixed_endswith [of c "cols a" "cols b" "''_x''"]
    suffixed_endswith [of c "cols b" "cols a" "''_y''"]
  by (auto simp: merge_Inr(3))

lemma merge_all_cols_endswith:
  assumes "merge_all df others = Inr m" "c \<in> set (cols m)" "endswith c ''_MW''"
  shows "c \<in> set (cols df) \<union> (\<Union>t \<in> set others. set (cols t))"
  using assms
proof (induction others arbitrary: df)
  case Nil
  then show ?case by simp
next
  case (Cons b others)
  from Cons.prems(1) obtain df' where m1: "merge df b = Inr df'"
    and rest: "merge_all df' others = Inr m"
    by (auto split: sum.splits)
  from Cons.IH [OF rest Cons.prems(2,3)]
  have "c \<in> set (cols df') \<union> (\<Union>t \<in> set others. set (cols t))" .
  then show ?case
    using merge_cols_endswith [OF m1 _ Cons.prems(3)] by auto
qed

lemma new_dups_same: "new_dups xs xs = []"
  by (simp add: new_dups_def)

lemma suffixed_disjoint: "set own \<inter> set other = {} \<Longrightarrow> suffixed own other suf = own"
proof -
  assume d: "set own \<inter> set other = {}"
  have "map (\<lambda>c. if c \<in> set other then c @ suf else c) own = map (\<lambda>c. c) own"
    by (rule map_cong) (use d in auto)
  then show ?thesis by (simp add: suffixed_def)
qed

lemma merge_disjoint_cols:
  assumes "merge a b = Inr m" "set (cols a) \<inter> set (cols b) = {}"
  shows "cols m = cols a @ cols b"
proof -
  from assms(2) have "set (cols b) \<inter> set (cols a) = {}" by blast
  then show ?thesis
    using assms(2) by (simp add: merge_Inr(3) [OF assms(1)] suffixed_disjoint)
qed

lemma merge_all_distinct_cols:
  assumes "merge_all df others = Inr m" "distinct (cols df @ concat (map cols others))"
  shows "cols m = cols df @ concat (map cols others)"
  using assms
proof (induction others arbitrary: df)
  case Nil
  then show ?case by simp
next
  case (Cons b others)
  from Cons.prems(1) obtain df' where m1: "merge df b = Inr df'"
    and rest: "merge_all df' others = Inr m"
    by (auto split: sum.splits)
  have dj: "set (cols df) \<inter> set (cols b) = {}"
    using Cons.prems(2) by auto
  have c': "cols df' = cols df @ cols b"
    using m1 dj by (rule merge_disjoint_cols)
  have "distinct (cols df' @ concat (map cols others))"
    using Cons.prems(2) by (simp add: c')
  from Cons.IH [OF rest this] show ?case
    by (simp add: c')
qed

lemma region_columns_vcols:
  "region_columns df = filter (\<lambda>col. endswith col ''_MW'') (vcols df)"
  by (simp add: region_columns_def columns_def endswith_def)

lemma loaded_cols_concat:
  "concat (map cols (fst (load_files data_files)))
     = map (\<lambda>src. region_of (fst src) @ ''_MW'')
         (filter (\<lambda>src. \<not> isl (try_load src)) data_files)"
  unfolding loaded_cols by (induction data_files) auto

lemma region_column_form:
  assumes "load_data p data_files = Inr df" "c \<in> set (region_columns df)"
  shows "\<exists>file. c = region_of file @ ''_MW''"
proof -
  from load_data_Inr [OF assms(1)] obtain d ds m where
    l: "fst (load_files data_files) = d # ds" and m: "merge_all d ds = Inr m"
    and v: "vcols df = cols m"
    by blast
  from assms(2) have c: "c \<in> set (cols m)" "endswith c ''_MW''"
    by (simp_all add: region_columns_vcols v)
  from merge_all_cols_endswith [OF m c]
  have "c \<in> set (concat (map cols (fst (load_files data_files))))"
    by (auto simp: l)
  then show ?thesis
    unfolding loaded_cols_concat by auto
qed

lemma region_column_replace:
  assumes "load_data p data_files = Inr df" "c \<in> set (region_columns df)"
  shows "replace ''_MW'' [] c = take (length c - 3) c"
    and "replace ''_MW'' [] c @ ''_MW'' = c"
proof -
  from region_column_form [OF assms] obtain path where c: "c = region_of path @ ''_MW''"
    by blast
  have r: "replace ''_MW'' [] c = region_of path"
    unfolding c using region_no_underscore by (rule replace_suffix)
  show "replace ''_MW'' [] c = take (length c - 3) c"
    unfolding r by (simp add: c)
  show "replace ''_MW'' [] c @ ''_MW'' = c"
    unfolding r by (simp add: c)
qed

lemma regions_distinct_loaded:
  assumes ld: "load_data p data_files = Inr df"
    and ds: "distinct (map (\<lambda>src. region_of (fst src))
               (filter (\<lambda>src. \<not> isl (try_load src)) data_files))"
  shows "regions df = map (\<lambda>src. region_of (fst src))
               (filter (\<lambda>src. \<not> isl (try_load src)) data_files)"
proof -
  let ?loaded = "filter (\<lambda>src. \<not> isl (try_load src)) data_files"
  from load_data_Inr [OF ld] obtain d dss m where
    l: "fst (load_files data_files) = d # dss" and m: "merge_all d dss = Inr m"
    and v: "vcols df = cols m"
    by blast
  have cc: "cols d @ concat (map cols dss) = map (\<lambda>src. region_of (fst src) @ ''_MW'') ?loaded"
    using loaded_cols_concat [of data_files] by (simp add: l)
  have "inj_on (\<lambda>R. R @ ''_MW'') A" for A :: "string set"
    by (simp add: inj_on_def)
  then have "distinct (map (\<lambda>R. R @ ''_MW'') (map (\<lambda>src. region_of (fst src)) ?loaded))"
    using ds by (subst distinct_map) blast
  then have "distinct (cols d @ concat (map cols dss))"
    unfolding cc by (simp add: comp_def)
  from merge_all_distinct_cols [OF m this]
  have cm: "cols m = map (\<lambda>src. region_of (fst src) @ ''_MW'') ?loaded"
    by (simp add: cc)
  have rc: "region_columns df = map (\<lambda>src. region_of (fst src) @ ''_MW'') ?loaded"
    unfolding region_columns_vcols v cm
    by (simp add: filter_id_conv endswith_suffix)
  show ?thesis
    unfolding regions_def rc
    by (simp add: comp_def replace_suffix region_no_underscore)
qed

lemma example_loaded_sources:
  "filter (\<lambda>src. \<not> isl (try_load src)) example_files
     = [(''data/PJM_hourly.csv'', Some pjm_frame), (''data/aep_hourly.csv'', Some two_column_frame)]"
  by (simp add: example_files_def pjm_source broken_source aep_source)

section \<open>Region selection\<close>

text \<open>
  C9. For a frame that load_data returns, the regions offered are the columns whose name
  ends with \<open>_MW\<close>, in column order, with that suffix removed. The selection returns the
  column of the chosen region, and the default, index 0, is the first region. When the
  loaded files have distinct regions, the regions offered are those of the loaded
  files in load order. The region of a file is the part of its base name before the
  first underscore, in upper case.
\<close>

theorem C9_region_selection:
  assumes "load_data to_datetime data_files = Inr df"
  shows "regions df = map (\<lambda>col. take (length col - 3) col)
                        (filter (\<lambda>col. endswith col ''_MW'') (columns df))
       \<and> (\<forall>i < length (regions df). get_selected_region df i = region_columns df ! i)
       \<and> (regions df \<noteq> [] \<longrightarrow> get_selected_region df 0 = hd (regions df) @ ''_MW'')
       \<and> (distinct (map (\<lambda>src. region_of (fst src))
                      (filter (\<lambda>src. \<not> isl (try_load src)) data_files)) \<longrightarrow>
            regions df = map (\<lambda>src. region_of (fst src))
                           (filter (\<lambda>src. \<not> isl (try_load src)) data_files))
       \<and> (\<forall>file. region_of file = upper (takeWhile (\<lambda>c. c \<noteq> CHR ''_'') (basename file)))"
proof (intro conjI allI impI)
  show "regions df = map (\<lambda>col. take (length col - 3) col)
                        (filter (\<lambda>col. endswith col ''_MW'') (columns df))"
    unfolding regions_def region_columns_def [symmetric]
    by (rule map_cong [OF refl]) (rule region_column_replace(1) [OF assms])
next
  fix i assume i: "i < length (regions df)"
  then have i': "i < length (region_columns df)" and ne: "regions df \<noteq> []"
    by (auto simp: regions_def)
  then have "region_columns df ! i \<in> set (region_columns df)"
    by simp
  from region_column_replace(2) [OF assms this]
  show "get_selected_region df i = region_columns df ! i"
    using ne i' by (simp add: get_selected_region_def regions_def)
next
  assume "regions df \<noteq> []"
  then show "get_selected_region df 0 = hd (regions df) @ ''_MW''"
    by (simp add: get_selected_region_def hd_conv_nth)
next
  assume "distinct (map (\<lambda>src. region_of (fst src))
                      (filter (\<lambda>src. \<not> isl (try_load src)) data_files))"
  with assms show "regions df = map (\<lambda>src. region_of (fst src))
                           (filter (\<lambda>src. \<not> isl (try_load src)) data_files)"
    by (rule regions_distinct_loaded)
next
  fix path
  show "region_of path = upper (takeWhile (\<lambda>c. c \<noteq> CHR ''_'') (basename path))"
    by (rule region_of_eq)
qed

theorem C9_region_selection_witness:
  "load_data iso_datetime example_files = Inr example_df
   \<and> distinct (map (\<lambda>src. region_of (fst src))
                (filter (\<lambda>src. \<not> isl (try_load src)) example_files))
   \<and> regions example_df = [''PJM'', ''AEP'']
   \<and> get_selected_region example_df 0 = ''PJM_MW''
   \<and> get_selected_region example_df 1 = ''AEP_MW''"
proof -
  note t = C9_region_selection [OF example_load_data]
  have d: "distinct (map (\<lambda>src. region_of (fst src))
                (filter (\<lambda>src. \<not> isl (try_load src)) example_files))"
    by (simp add: example_loaded_sources region_PJM region_aep)
  from t [THEN conjunct2, THEN conjunct2, THEN conjunct2, THEN conjunct1] d
  have r: "regions example_df = [''PJM'', ''AEP'']"
    by (simp add: example_loaded_sources region_PJM region_aep)
  have c: "region_columns example_df = [''PJM_MW'', ''AEP_MW'']"
    by (simp add: region_columns_vcols example_df_def endswith_def)
  note sel = t [THEN conjunct2, THEN conjunct1, rule_format]
  have s0: "get_selected_region example_df 0 = ''PJM_MW''"
    using sel [of 0] by (simp add: r c)
  have s1: "get_selected_region example_df 1 = ''AEP_MW''"
    using sel [of 1] by (simp add: r c)
  show ?thesis
    by (intro conjI example_load_data d r s0 s1)
qed

section \<open>float64 arithmetic: helper lemmas\<close>

lemma round_half_even_nonneg: "0 \<le> x \<Longrightarrow> 0 \<le> round_half_even x"
  by (auto simp: round_half_even_def Let_def)

lemma pow2_pos: "0 < pow2 q"
  by (simp add: pow2_def)

lemma round64_zero: "round64 0 = Fin 0"
  by (simp add: round64_def)

lemma round64_nonneg:
  assumes "0 \<le> x"
  shows "round64 x = PInf \<or> (\<exists>y. round64 x = Fin y \<and> 0 \<le> y)"
proof (cases "x = 0")
  case True
  then show ?thesis by (simp add: round64_zero)
next
  case False
  with assms have pos: "0 < x" by simp
  define q where "q = max (exponent \<bar>x\<bar>) (- 1022) - 52"
  define y where "y = of_int (round_half_even (\<bar>x\<bar> / pow2 q)) * pow2 q"
  have "0 \<le> \<bar>x\<bar> / pow2 q"
    using pow2_pos [of q] by simp
  then have "0 \<le> round_half_even (\<bar>x\<bar> / pow2 q)"
    by (rule round_half_even_nonneg)
  then have y0: "0 \<le> y"
    unfolding y_def using pow2_pos [of q] by simp
  have "round64 x = (if 2 ^ 1024 \<le> y then PInf else Fin y)"
    using pos False unfolding round64_def q_def y_def Let_def by simp
  with y0 show ?thesis by auto
qed

lemma not_negative_round64: "0 \<le> x \<Longrightarrow> not_negative (round64 x)"
  using round64_nonneg [of x] by (auto simp: not_negative_def)

lemma not_negative_fadd: "not_negative a \<Longrightarrow> not_negative b \<Longrightarrow> not_negative (fadd a b)"
  by (cases a; cases b) (simp_all add: not_negative_def [of "Fin _"] not_negative_def [of PInf]
      not_negative_def [of NaN] not_negative_def [of NInf] not_negative_round64)

lemma not_negative_foldl:
  "not_negative a \<Longrightarrow> \<forall>v \<in> set vs. not_negative v \<Longrightarrow> not_negative (foldl fadd a vs)"
  by (induction vs arbitrary: a) (simp_all add: not_negative_fadd)

lemma not_negative_fdiv:
  "not_negative a \<Longrightarrow> 0 < p \<Longrightarrow> not_negative (fdiv a (Fin p))"
  by (cases a) (simp_all add: not_negative_def [of "Fin _"] not_negative_def [of PInf]
      not_negative_def [of NaN] not_negative_def [of NInf] not_negative_round64)

lemma not_negative_fmul:
  "not_negative a \<Longrightarrow> 0 < p \<Longrightarrow> not_negative (fmul a (Fin p))"
  by (cases a) (simp_all add: not_negative_def [of "Fin _"] not_negative_def [of PInf]
      not_negative_def [of NaN] not_negative_def [of NInf] not_negative_round64)

lemma not_negative_cases: "not_negative v \<longleftrightarrow> v = PInf \<or> (\<exists>a. v = Fin a \<and> 0 \<le> a)"
  by (cases v) (simp_all add: not_negative_def)

lemmas float_eval =
  round64_def exponent_def pow2_def round_half_even_def compute_floorlog Let_def

section \<open>KPIs: helper lemmas\<close>

lemma fold_max_Max: "ys \<noteq> [] \<Longrightarrow> fold max (tl ys) (hd ys) = Max (set ys)"
proof (cases ys)
  case Nil
  assume "ys \<noteq> []"
  with Nil show ?thesis by simp
next
  case (Cons a list)
  have "Max (set (a # list)) = fold max list a"
    by (rule Max.set_eq_fold)
  then show ?thesis using Cons by simp
qed

lemma sum_list_le_length_times:
  fixes ys :: "real list"
  shows "\<forall>y \<in> set ys. y \<le> p \<Longrightarrow> sum_list ys \<le> real (length ys) * p"
  by (induction ys) (auto simp: algebra_simps)

lemma sum_list_nonneg_real:
  fixes ys :: "real list"
  shows "\<forall>y \<in> set ys. 0 \<le> y \<Longrightarrow> 0 \<le> sum_list ys"
  by (induction ys) auto

lemma present_set:
  "set (map the (filter (\<lambda>x. x \<noteq> None) xs)) = {y. Some y \<in> set xs}"
  by (induction xs) auto

lemma maximum_Fin:
  assumes "maximum xs = Fin p"
  shows "filter (\<lambda>x. x \<noteq> None) xs \<noteq> []"
    and "\<forall>y. Some y \<in> set xs \<longrightarrow> y \<le> p"
    and "Some p \<in> set xs"
proof -
  let ?ys = "map the (filter (\<lambda>x. x \<noteq> None) xs)"
  from assms have ne: "?ys \<noteq> []" and p: "p = fold max (tl ?ys) (hd ?ys)"
    by (auto simp: maximum_def Let_def split: if_splits)
  from ne show "filter (\<lambda>x. x \<noteq> None) xs \<noteq> []" by simp
  from ne p have pm: "p = Max (set ?ys)"
    by (simp add: fold_max_Max)
  have s: "set ?ys = {y. Some y \<in> set xs}"
    by (rule present_set)
  have "y \<le> Max (set ?ys)" if "Some y \<in> set xs" for y
  proof -
    from that have "y \<in> set ?ys" unfolding s by simp
    then show ?thesis by (intro Max_ge) simp_all
  qed
  then show "\<forall>y. Some y \<in> set xs \<longrightarrow> y \<le> p"
    unfolding pm by blast
  have ne2: "set ?ys \<noteq> {}"
    using ne unfolding set_empty .
  have "Max (set ?ys) \<in> set ?ys"
    using ne2 by (intro Max_in) (rule finite_set)
  then have "p \<in> set ?ys"
    using pm by simp
  then show "Some p \<in> set xs"
    unfolding s by simp
qed

lemma exact_mean_bounds:
  assumes "maximum xs = Fin p"
    and "\<forall>y. Some y \<in> set xs \<longrightarrow> 0 \<le> y"
  shows "0 \<le> sum_list (map the (filter (\<lambda>x. x \<noteq> None) xs))"
    and "sum_list (map the (filter (\<lambda>x. x \<noteq> None) xs))
           \<le> real (length (filter (\<lambda>x. x \<noteq> None) xs)) * p"
proof -
  let ?ys = "map the (filter (\<lambda>x. x \<noteq> None) xs)"
  have s: "set ?ys = {y. Some y \<in> set xs}"
    by (rule present_set)
  have "\<forall>y \<in> set ?ys. 0 \<le> y"
    unfolding s using assms(2) by simp
  then show "0 \<le> sum_list ?ys"
    by (rule sum_list_nonneg_real)
  have "\<forall>y \<in> set ?ys. y \<le> p"
    unfolding s using maximum_Fin(2) [OF assms(1)] by simp
  from sum_list_le_length_times [OF this]
  show "sum_list ?ys \<le> real (length (filter (\<lambda>x. x \<noteq> None) xs)) * p"
    by simp
qed

lemma mean_NaN: "\<forall>x \<in> set xs. x = None \<Longrightarrow> mean xs = NaN"
proof -
  assume "\<forall>x \<in> set xs. x = None"
  then have "filter (\<lambda>x. x \<noteq> None) xs = []"
    by (simp add: filter_empty_conv)
  then show ?thesis by (simp add: mean_def)
qed

lemma maximum_NaN: "\<forall>x \<in> set xs. x = None \<Longrightarrow> maximum xs = NaN"
proof -
  assume "\<forall>x \<in> set xs. x = None"
  then have "filter (\<lambda>x. x \<noteq> None) xs = []"
    by (simp add: filter_empty_conv)
  then show ?thesis by (simp add: maximum_def)
qed

lemma mean_present:
  "filter (\<lambda>x. x \<noteq> None) xs \<noteq> [] \<Longrightarrow>
   mean xs = fdiv (foldl fadd (Fin 0) (map (\<lambda>x. case x of None \<Rightarrow> Fin 0 | Some v \<Rightarrow> Fin v) xs))
               (Fin (real (length (filter (\<lambda>x. x \<noteq> None) xs))))"
  by (simp add: mean_def Let_def)

lemma mean_not_negative:
  assumes "filter (\<lambda>x. x \<noteq> None) xs \<noteq> []"
    and "\<forall>y. Some y \<in> set xs \<longrightarrow> 0 \<le> y"
  shows "not_negative (mean xs)"
proof -
  let ?vs = "map (\<lambda>x. case x of None \<Rightarrow> Fin 0 | Some v \<Rightarrow> Fin v) xs"
  have "\<forall>v \<in> set ?vs. not_negative v"
    using assms(2) by (auto simp: not_negative_def split: option.splits)
  moreover have "not_negative (Fin 0)"
    by (simp add: not_negative_def)
  ultimately have "not_negative (foldl fadd (Fin 0) ?vs)"
    by (intro not_negative_foldl)
  moreover have "0 < real (length (filter (\<lambda>x. x \<noteq> None) xs))"
    using assms(1) by simp
  ultimately show ?thesis
    unfolding mean_present [OF assms(1)] by (rule not_negative_fdiv)
qed

lemma foldl_fadd_zero:
  "\<forall>v \<in> set vs. v = Fin 0 \<Longrightarrow> foldl fadd (Fin 0) vs = Fin 0"
  by (induction vs) (simp_all add: round64_zero)

lemma mean_zero:
  assumes "filter (\<lambda>x. x \<noteq> None) xs \<noteq> []"
    and "\<forall>y. Some y \<in> set xs \<longrightarrow> y = 0"
  shows "mean xs = Fin 0"
proof -
  let ?vs = "map (\<lambda>x. case x of None \<Rightarrow> Fin 0 | Some v \<Rightarrow> Fin v) xs"
  have "\<forall>v \<in> set ?vs. v = Fin 0"
    using assms(2) by (auto split: option.splits)
  then have "foldl fadd (Fin 0) ?vs = Fin 0"
    by (rule foldl_fadd_zero)
  then show ?thesis
    unfolding mean_present [OF assms(1)] using assms(1) by (simp add: round64_zero)
qed

lemma fdiv_zero_divisor: "fdiv v (Fin 0) = NaN \<or> fdiv v (Fin 0) = PInf \<or> fdiv v (Fin 0) = NInf"
  by (cases v) auto

lemma fmul_not_finite:
  "w = NaN \<or> w = PInf \<or> w = NInf \<Longrightarrow>
   fmul w (Fin 100) = NaN \<or> fmul w (Fin 100) = PInf \<or> fmul w (Fin 100) = NInf"
  by auto

lemma kpis_avg: "avg_consumption (kpis i f) = mean (map (float_at i) f)"
  by (simp add: kpis_def Let_def)

lemma kpis_peak: "peak_consumption (kpis i f) = maximum (map (float_at i) f)"
  by (simp add: kpis_def Let_def)

lemma kpis_load_factor:
  "load_factor (kpis i f) =
     fmul (fdiv (mean (map (float_at i) f)) (maximum (map (float_at i) f))) (Fin 100)"
  by (simp add: kpis_def Let_def)

lemma kpis_yearly:
  "yearly_avg (kpis i f) =
     (if length (remdups (map Year f)) > 1 then Some (group_mean i (groupby Year f)) else None)"
  by (simp add: kpis_def Let_def)

lemma dashboard_Inr_index:
  "dashboard df c s e = Inr rep \<Longrightarrow> index_of c (vcols df) = Some i \<Longrightarrow>
   rep = kpis i (filtered_df df s e)"
  by (auto simp: dashboard_def split: sum.splits prod.splits option.splits if_splits)

lemma example_peak: "peak_consumption (kpis 0 (rows example_df)) = Fin 120"
  by (simp add: kpis_peak example_df_def float_at_def maximum_def)

lemma example_years: "Year ` set (rows example_df) = {2020, 2021}"
  by (auto simp: example_df_def Year_def)

lemma kpis_Nil:
  "kpis i [] = \<lparr>avg_consumption = NaN, peak_consumption = NaN, load_factor = NaN,
      daily_consumption = [], hourly_avg = [], monthly_box = [], dow_avg = [],
      yearly_avg = None\<rparr>"
  by (simp add: kpis_def mean_def maximum_def groupby_def group_mean_def)

lemma filtered_df_inverted:
  "end_date < start_date \<Longrightarrow> filtered_df df start_date end_date = []"
proof -
  assume lt: "end_date < start_date"
  have "\<not> (start_date \<le> d \<and> d \<le> end_date)" for d
    using lt by (meson leD order_trans)
  then show ?thesis by (simp add: filtered_df_def)
qed

lemma dashboard_numeric:
  "rows df \<noteq> [] \<Longrightarrow> undated df = [] \<Longrightarrow> index_of c (vcols df) = Some i \<Longrightarrow>
   \<forall>r \<in> set (rows df). \<not> is_text (vals r ! i) \<Longrightarrow>
   dashboard df c s e = Inr (kpis i (filtered_df df s e))"
  by (simp add: dashboard_dated)

lemma example_numeric_all: "\<forall>r \<in> set (rows example_df). \<not> is_text (vals r ! 0)"
  using example_numeric by simp

section \<open>The example frames: KPIs\<close>

lemma zero_dated: "rows zero_df \<noteq> []" "undated zero_df = []"
  by (simp_all add: zero_df_def)

lemma zero_filtered: "filtered_df zero_df (2021, 1, 1) (2021, 1, 1) = rows zero_df"
  by (simp add: filtered_df_def zero_df_def Date_def)

lemma zero_index: "index_of ''PJM_MW'' (vcols zero_df) = Some 0"
  by (simp add: zero_df_def)

lemma zero_numeric: "\<forall>r \<in> set (rows zero_df). \<not> is_text (vals r ! 0)"
  by (simp add: zero_df_def is_text_def)

lemma zero_values: "map (float_at 0) (rows zero_df) = [Some 0]"
  by (simp add: zero_df_def float_at_def)

lemma zero_dashboard:
  "dashboard zero_df ''PJM_MW'' (2021, 1, 1) (2021, 1, 1) = Inr (kpis 0 (rows zero_df))"
  using dashboard_numeric [OF zero_dated zero_index zero_numeric, of "(2021, 1, 1)" "(2021, 1, 1)"]
  unfolding zero_filtered .

lemma zero_peak: "peak_consumption (kpis 0 (rows zero_df)) = Fin 0"
  unfolding kpis_peak zero_values by (simp add: maximum_def)

lemma negative_source:
  "try_load (''data/PJM_hourly.csv'', Some negative_frame) =
     Inr \<lparr>cols = [''PJM_MW''],
          rws = [(Txt ''2021-01-01 00:00:00'', [Num (- 1)]),
                 (Txt ''2021-01-01 01:00:00'', [Num 0])]\<rparr>"
  by (simp add: try_load_def negative_frame_def canonicalize_two region_PJM)

lemma negative_load_data:
  "load_data iso_datetime [(''data/PJM_hourly.csv'', Some negative_frame)] = Inr negative_df"
  by (simp add: load_data_def negative_source iso_ex2 iso_ex3 negative_df_def)

lemma negative_dated: "rows negative_df \<noteq> []" "undated negative_df = []"
  by (simp_all add: negative_df_def)

lemma negative_filtered: "filtered_df negative_df (2021, 1, 1) (2021, 1, 1) = rows negative_df"
  by (simp add: filtered_df_def negative_df_def Date_def)

lemma negative_index: "index_of ''PJM_MW'' (vcols negative_df) = Some 0"
  by (simp add: negative_df_def)

lemma negative_numeric: "\<forall>r \<in> set (rows negative_df). \<not> is_text (vals r ! 0)"
  by (simp add: negative_df_def is_text_def)

lemma negative_values: "map (float_at 0) (rows negative_df) = [Some (- 1), Some 0]"
  by (simp add: negative_df_def float_at_def)

lemma negative_dashboard:
  "dashboard negative_df ''PJM_MW'' (2021, 1, 1) (2021, 1, 1) = Inr (kpis 0 (rows negative_df))"
  using dashboard_numeric [OF negative_dated negative_index negative_numeric,
      of "(2021, 1, 1)" "(2021, 1, 1)"]
  unfolding negative_filtered .

lemma round64_minus_one: "round64 (- 1) = Fin (- 1)"
  by (simp add: float_eval)

lemma round64_minus_half: "round64 (- 1 / 2) = Fin (- 1 / 2)"
  by (simp add: float_eval)

lemma negative_mean: "mean [Some (- 1), Some 0] = Fin (- 1 / 2)"
  using round64_minus_half by (simp add: mean_def round64_minus_one)

lemma negative_kpis:
  "avg_consumption (kpis 0 (rows negative_df)) = Fin (- 1 / 2)"
  "peak_consumption (kpis 0 (rows negative_df)) = Fin 0"
  "load_factor (kpis 0 (rows negative_df)) = NInf"
  unfolding kpis_avg kpis_peak kpis_load_factor negative_values negative_mean
  by (simp_all add: maximum_def)

lemma example_inverted: "filtered_df example_df (2021, 1, 1) (2020, 12, 31) = []"
  by (rule filtered_df_inverted) simp

lemma example_dashboard_inverted:
  "dashboard example_df ''PJM_MW'' (2021, 1, 1) (2020, 12, 31) = Inr (kpis 0 [])"
  using dashboard_numeric [OF example_dated example_index example_numeric_all,
      of "(2021, 1, 1)" "(2020, 12, 31)"]
  unfolding example_inverted .

lemma header_only_source:
  "try_load (''data/PJM_hourly.csv'', Some header_only_frame) =
     Inr \<lparr>cols = [''PJM_MW''], rws = []\<rparr>"
  by (simp add: try_load_def header_only_frame_def canonicalize_two region_PJM)

lemma header_only_load_data:
  "load_data iso_datetime [(''data/PJM_hourly.csv'', Some header_only_frame)] = Inr empty_df"
  by (simp add: load_data_def header_only_source empty_df_def)

lemma empty_dashboard: "dashboard empty_df c s e = Inl StreamlitAPIException"
  by (simp add: dashboard_def date_range_def empty_df_def)

lemma gap_source:
  "try_load (''data/PJM_hourly.csv'', Some gap_frame) =
     Inr \<lparr>cols = [''PJM_MW''],
          rws = [(Txt ''2021-01-01 00:00:00'', [Num 0]), (Null, [Num 5])]\<rparr>"
  by (simp add: try_load_def gap_frame_def canonicalize_two region_PJM)

lemma gap_load_data:
  "load_data iso_datetime [(''data/PJM_hourly.csv'', Some gap_frame)] = Inr gap_df"
  by (simp add: load_data_def gap_source iso_ex2 gap_df_def)

lemma gap_dashboard: "dashboard gap_df c s e = Inl TypeError"
  by (simp add: dashboard_def date_range_def gap_df_def)

lemma tenth_dated: "rows tenth_df \<noteq> []" "undated tenth_df = []"
  by (simp_all add: tenth_df_def)

lemma tenth_filtered: "filtered_df tenth_df (2021, 1, 1) (2021, 1, 1) = rows tenth_df"
  by (simp add: filtered_df_def tenth_df_def Date_def)

lemma tenth_index: "index_of ''PJM_MW'' (vcols tenth_df) = Some 0"
  by (simp add: tenth_df_def)

lemma tenth_numeric: "\<forall>r \<in> set (rows tenth_df). \<not> is_text (vals r ! 0)"
  by (simp add: tenth_df_def is_text_def)

lemma tenth_values: "map (float_at 0) (rows tenth_df) = [Some tenth, Some tenth, Some tenth]"
  by (simp add: tenth_df_def float_at_def)

lemma tenth_dashboard:
  "dashboard tenth_df ''PJM_MW'' (2021, 1, 1) (2021, 1, 1) = Inr (kpis 0 (rows tenth_df))"
  using dashboard_numeric [OF tenth_dated tenth_index tenth_numeric,
      of "(2021, 1, 1)" "(2021, 1, 1)"]
  unfolding tenth_filtered .

lemma tenth_nearest: "round64 (1 / 10) = Fin tenth"
  unfolding tenth_def by (simp add: float_eval)

lemma tenth_sum1: "round64 (0 + tenth) = Fin tenth"
  unfolding tenth_def by (simp add: float_eval)

lemma tenth_sum2: "round64 (tenth + tenth) = Fin (3602879701896397 / 18014398509481984)"
  unfolding tenth_def by (simp add: float_eval)

lemma tenth_sum3:
  "round64 (3602879701896397 / 18014398509481984 + tenth)
     = Fin (1351079888211149 / 4503599627370496)"
  unfolding tenth_def by (simp add: float_eval)

lemma tenth_avg:
  "round64 (1351079888211149 / 4503599627370496 / 3)
     = Fin (7205759403792795 / 72057594037927936)"
  by (simp add: float_eval)

lemma tenth_quotient:
  "round64 (7205759403792795 / 72057594037927936 / tenth)
     = Fin (4503599627370497 / 4503599627370496)"
  unfolding tenth_def by (simp add: float_eval)

lemma tenth_percent:
  "round64 (4503599627370497 / 4503599627370496 * 100)
     = Fin (3518437208883201 / 35184372088832)"
  by (simp add: float_eval)

lemma tenth_nonzero: "tenth \<noteq> 0"
  by (simp add: tenth_def)

lemma tenth_mean:
  "mean [Some tenth, Some tenth, Some tenth] = Fin (7205759403792795 / 72057594037927936)"
proof -
  have s1: "fadd (Fin 0) (Fin tenth) = Fin tenth"
    by (simp only: fadd.simps tenth_sum1)
  have s2: "fadd (Fin tenth) (Fin tenth) = Fin (3602879701896397 / 18014398509481984)"
    by (simp only: fadd.simps tenth_sum2)
  have s3: "fadd (Fin (3602879701896397 / 18014398509481984)) (Fin tenth)
        = Fin (1351079888211149 / 4503599627370496)"
    by (simp only: fadd.simps tenth_sum3)
  have "foldl fadd (Fin 0) [Fin tenth, Fin tenth, Fin tenth]
        = Fin (1351079888211149 / 4503599627370496)"
    by (simp only: foldl.simps s1 s2 s3)
  then show ?thesis
    using tenth_avg by (simp add: mean_def)
qed

lemma tenth_kpis:
  "avg_consumption (kpis 0 (rows tenth_df)) = Fin (7205759403792795 / 72057594037927936)"
  "peak_consumption (kpis 0 (rows tenth_df)) = Fin tenth"
  "load_factor (kpis 0 (rows tenth_df)) = Fin (3518437208883201 / 35184372088832)"
proof -
  show "avg_consumption (kpis 0 (rows tenth_df)) = Fin (7205759403792795 / 72057594037927936)"
    unfolding kpis_avg tenth_values by (rule tenth_mean)
  show p: "peak_consumption (kpis 0 (rows tenth_df)) = Fin tenth"
    unfolding kpis_peak tenth_values by (simp add: maximum_def)
  have "maximum [Some tenth, Some tenth, Some tenth] = Fin tenth"
    by (simp add: maximum_def)
  then show "load_factor (kpis 0 (rows tenth_df)) = Fin (3518437208883201 / 35184372088832)"
    unfolding kpis_load_factor tenth_values tenth_mean
    using tenth_quotient tenth_percent tenth_nonzero by simp
qed

section \<open>KPIs and the yearly table\<close>

text \<open>
  C3, as the code has it, for a frame with at least one row, no row without a
  timestamp, and a selected column that holds no text: the script then raises nothing.
  When the window has no value in the selected column (an empty window, or missing
  values only), average, peak and load factor are NaN. When the window is empty the
  daily, hourly, monthly and day-of-week tables are empty and the yearly table is not
  produced; a start date after the end date gives an empty window. When the peak is
  zero the load factor is not a number: it is NaN or an infinity, and NaN when no value
  of the window is below zero, the average being zero then.
\<close>

theorem C3_undefined_metrics:
  assumes "index_of selected_column (vcols df) = Some i"
    and "\<forall>r \<in> set (rows df). \<not> is_text (vals r ! i)"
    and "rows df \<noteq> []"
    and "undated df = []"
  shows "\<exists>rep. dashboard df selected_column start_date end_date = Inr rep
       \<and> ((\<forall>r \<in> set (filtered_df df start_date end_date). float_at i r = None) \<longrightarrow>
            avg_consumption rep = NaN \<and> peak_consumption rep = NaN \<and> load_factor rep = NaN)
       \<and> (filtered_df df start_date end_date = [] \<longrightarrow>
            daily_consumption rep = [] \<and> hourly_avg rep = [] \<and> monthly_box rep = []
            \<and> dow_avg rep = [] \<and> yearly_avg rep = None)
       \<and> (end_date < start_date \<longrightarrow> filtered_df df start_date end_date = [])
       \<and> (peak_consumption rep = Fin 0 \<longrightarrow>
            (load_factor rep = NaN \<or> load_factor rep = PInf \<or> load_factor rep = NInf)
          \<and> ((\<forall>r \<in> set (filtered_df df start_date end_date).
                 \<forall>x. float_at i r = Some x \<longrightarrow> 0 \<le> x) \<longrightarrow>
               avg_consumption rep = Fin 0 \<and> load_factor rep = NaN))"
proof -
  let ?f = "filtered_df df start_date end_date"
  let ?xs = "map (float_at i) ?f"
  let ?rep = "kpis i ?f"
  have d: "dashboard df selected_column start_date end_date = Inr ?rep"
    using assms(3,4,1,2) by (rule dashboard_numeric)
  have n: "avg_consumption ?rep = NaN \<and> peak_consumption ?rep = NaN \<and> load_factor ?rep = NaN"
    if "\<forall>r \<in> set ?f. float_at i r = None"
  proof -
    from that have "\<forall>x \<in> set ?xs. x = None" by simp
    then have "mean ?xs = NaN" "maximum ?xs = NaN"
      by (rule mean_NaN, rule maximum_NaN)
    then show ?thesis
      by (simp add: kpis_avg kpis_peak kpis_load_factor)
  qed
  have e: "daily_consumption ?rep = [] \<and> hourly_avg ?rep = [] \<and> monthly_box ?rep = []
            \<and> dow_avg ?rep = [] \<and> yearly_avg ?rep = None"
    if "?f = []"
    unfolding that kpis_Nil by simp
  have z1: "load_factor ?rep = NaN \<or> load_factor ?rep = PInf \<or> load_factor ?rep = NInf"
    if "peak_consumption ?rep = Fin 0"
  proof -
    from that have pk: "maximum ?xs = Fin 0"
      by (simp add: kpis_peak)
    show ?thesis
      unfolding kpis_load_factor pk
      using fdiv_zero_divisor [of "mean ?xs"] by (rule fmul_not_finite)
  qed
  have z2: "avg_consumption ?rep = Fin 0 \<and> load_factor ?rep = NaN"
    if "peak_consumption ?rep = Fin 0"
      and nn: "\<forall>r \<in> set ?f. \<forall>x. float_at i r = Some x \<longrightarrow> 0 \<le> x"
  proof -
    from that(1) have pk: "maximum ?xs = Fin 0"
      by (simp add: kpis_peak)
    have "y = 0" if "Some y \<in> set ?xs" for y
    proof -
      from that nn have "0 \<le> y" by auto
      moreover from maximum_Fin(2) [OF pk] that have "y \<le> 0" by blast
      ultimately show ?thesis by simp
    qed
    then have "mean ?xs = Fin 0"
      using maximum_Fin(1) [OF pk] by (intro mean_zero) blast+
    then show ?thesis
      by (simp add: kpis_avg kpis_load_factor pk)
  qed
  show ?thesis
    using d n e z1 z2 filtered_df_inverted [of end_date start_date df] by blast
qed

theorem C3_undefined_metrics_witness:
  "index_of ''PJM_MW'' (vcols example_df) = Some 0
   \<and> map (\<lambda>r. is_text (vals r ! 0)) (rows example_df) = [False, False, False]
   \<and> length (rows example_df) = 3 \<and> undated example_df = []
   \<and> (2020, 12, 31) < ((2021, 1, 1) :: date)
   \<and> (\<exists>rep. dashboard example_df ''PJM_MW'' (2021, 1, 1) (2020, 12, 31) = Inr rep
         \<and> avg_consumption rep = NaN \<and> peak_consumption rep = NaN \<and> load_factor rep = NaN
         \<and> daily_consumption rep = [] \<and> hourly_avg rep = [] \<and> monthly_box rep = []
         \<and> dow_avg rep = [] \<and> yearly_avg rep = None)
   \<and> map (float_at 0) (filtered_df zero_df (2021, 1, 1) (2021, 1, 1)) = [Some 0]
   \<and> (\<exists>rep. dashboard zero_df ''PJM_MW'' (2021, 1, 1) (2021, 1, 1) = Inr rep
         \<and> peak_consumption rep = Fin 0 \<and> avg_consumption rep = Fin 0
         \<and> load_factor rep = NaN)"
proof -
  have lt: "(2020, 12, 31) < ((2021, 1, 1) :: date)" by simp
  have nt: "map (\<lambda>r. is_text (vals r ! 0)) (rows example_df) = [False, False, False]"
    by (simp add: example_df_def is_text_def)
  have len: "length (rows example_df) = 3"
    by (simp add: example_df_def)
  from C3_undefined_metrics [OF example_index example_numeric_all example_dated,
      of "(2021, 1, 1)" "(2020, 12, 31)"]
  obtain rep where rep:
    "dashboard example_df ''PJM_MW'' (2021, 1, 1) (2020, 12, 31) = Inr rep"
    "(\<forall>r \<in> set (filtered_df example_df (2021, 1, 1) (2020, 12, 31)). float_at 0 r = None) \<longrightarrow>
       avg_consumption rep = NaN \<and> peak_consumption rep = NaN \<and> load_factor rep = NaN"
    "filtered_df example_df (2021, 1, 1) (2020, 12, 31) = [] \<longrightarrow>
       daily_consumption rep = [] \<and> hourly_avg rep = [] \<and> monthly_box rep = []
       \<and> dow_avg rep = [] \<and> yearly_avg rep = None"
    "(2020, 12, 31) < ((2021, 1, 1) :: date) \<longrightarrow>
       filtered_df example_df (2021, 1, 1) (2020, 12, 31) = []"
    by blast
  from rep(4) lt have emp: "filtered_df example_df (2021, 1, 1) (2020, 12, 31) = []"
    by blast
  have a: "\<exists>rep. dashboard example_df ''PJM_MW'' (2021, 1, 1) (2020, 12, 31) = Inr rep
         \<and> avg_consumption rep = NaN \<and> peak_consumption rep = NaN \<and> load_factor rep = NaN
         \<and> daily_consumption rep = [] \<and> hourly_avg rep = [] \<and> monthly_box rep = []
         \<and> dow_avg rep = [] \<and> yearly_avg rep = None"
    using rep(1,2,3) unfolding emp by auto
  have zv: "map (float_at 0) (filtered_df zero_df (2021, 1, 1) (2021, 1, 1)) = [Some 0]"
    unfolding zero_filtered by (rule zero_values)
  have znn: "\<forall>r \<in> set (filtered_df zero_df (2021, 1, 1) (2021, 1, 1)).
      \<forall>x. float_at 0 r = Some x \<longrightarrow> 0 \<le> x"
    unfolding zero_filtered by (simp add: zero_df_def float_at_def)
  from C3_undefined_metrics [OF zero_index zero_numeric zero_dated,
      of "(2021, 1, 1)" "(2021, 1, 1)"]
  obtain rep' where rep':
    "dashboard zero_df ''PJM_MW'' (2021, 1, 1) (2021, 1, 1) = Inr rep'"
    "peak_consumption rep' = Fin 0 \<longrightarrow>
       ((\<forall>r \<in> set (filtered_df zero_df (2021, 1, 1) (2021, 1, 1)).
           \<forall>x. float_at 0 r = Some x \<longrightarrow> 0 \<le> x) \<longrightarrow>
        avg_consumption rep' = Fin 0 \<and> load_factor rep' = NaN)"
    by blast
  from rep'(1) have "rep' = kpis 0 (rows zero_df)"
    unfolding zero_dashboard by simp
  then have pk: "peak_consumption rep' = Fin 0"
    using zero_peak by simp
  have b: "\<exists>rep. dashboard zero_df ''PJM_MW'' (2021, 1, 1) (2021, 1, 1) = Inr rep
         \<and> peak_consumption rep = Fin 0 \<and> avg_consumption rep = Fin 0
         \<and> load_factor rep = NaN"
    using rep' pk znn by blast
  show ?thesis
    by (intro conjI example_index nt len example_dated(2) lt a zv b)
qed

text \<open>
  The claim as stated fails in four ways. With the readings -1 and 0 the peak is zero
  and the load factor is minus infinity, not NaN. On an empty window the yearly table
  is not produced at all. A frame without rows, which a file with a header alone gives,
  has only empty windows, and the date widgets raise. A frame with a row that has no
  timestamp raises TypeError, here with a window whose peak is zero.
\<close>

theorem C3_counterexample:
  "load_data iso_datetime [(''data/PJM_hourly.csv'', Some negative_frame)] = Inr negative_df
   \<and> dashboard negative_df ''PJM_MW'' (2021, 1, 1) (2021, 1, 1)
       = Inr (kpis 0 (rows negative_df))
   \<and> peak_consumption (kpis 0 (rows negative_df)) = Fin 0
   \<and> load_factor (kpis 0 (rows negative_df)) = NInf
   \<and> dashboard example_df ''PJM_MW'' (2021, 1, 1) (2020, 12, 31) = Inr (kpis 0 [])
   \<and> yearly_avg (kpis 0 []) = None
   \<and> load_data iso_datetime [(''data/PJM_hourly.csv'', Some header_only_frame)] = Inr empty_df
   \<and> dashboard empty_df ''PJM_MW'' (2021, 1, 1) (2020, 12, 31) = Inl StreamlitAPIException
   \<and> load_data iso_datetime [(''data/PJM_hourly.csv'', Some gap_frame)] = Inr gap_df
   \<and> vals (hd (rows gap_df)) = [Num 0]
   \<and> dashboard gap_df ''PJM_MW'' (2021, 1, 1) (2021, 1, 1) = Inl TypeError"
proof -
  have y: "yearly_avg (kpis 0 []) = None"
    by (simp add: kpis_Nil)
  have g: "vals (hd (rows gap_df)) = [Num 0]"
    by (simp add: gap_df_def)
  show ?thesis
    by (intro conjI negative_load_data negative_dashboard negative_kpis(2) negative_kpis(3)
        example_dashboard_inverted y header_only_load_data empty_dashboard gap_load_data g
        gap_dashboard)
qed

text \<open>
  C4, as the code has it. On a window whose values in the selected column are all
  non-negative (missing values are skipped) and whose peak is a number above zero, the
  load factor is the average divided by the peak, times 100, each of the three
  operations rounded to float64. The sum of the values is then between zero and the
  number of values times the peak, so that the exact average lies between zero and the
  peak. The rounded average and the rounded load factor are not below zero: each is a
  number from zero up, or plus infinity when the sum overflows. They are not bounded by
  the peak and by 100.
\<close>

theorem C4_load_factor_range:
  assumes "dashboard df selected_column start_date end_date = Inr rep"
    and "index_of selected_column (vcols df) = Some i"
    and "\<forall>r \<in> set (filtered_df df start_date end_date). \<forall>x. float_at i r = Some x \<longrightarrow> 0 \<le> x"
    and "peak_consumption rep = Fin p"
    and "0 < p"
  shows "load_factor rep = fmul (fdiv (avg_consumption rep) (Fin p)) (Fin 100)
       \<and> 0 \<le> sum_list (map the (filter (\<lambda>x. x \<noteq> None)
                 (map (float_at i) (filtered_df df start_date end_date))))
       \<and> sum_list (map the (filter (\<lambda>x. x \<noteq> None)
                 (map (float_at i) (filtered_df df start_date end_date))))
           \<le> real (length (filter (\<lambda>x. x \<noteq> None)
                 (map (float_at i) (filtered_df df start_date end_date)))) * p
       \<and> (avg_consumption rep = PInf \<or> (\<exists>a. avg_consumption rep = Fin a \<and> 0 \<le> a))
       \<and> (load_factor rep = PInf \<or> (\<exists>x. load_factor rep = Fin x \<and> 0 \<le> x))"
proof -
  let ?xs = "map (float_at i) (filtered_df df start_date end_date)"
  have rep: "rep = kpis i (filtered_df df start_date end_date)"
    using assms(1,2) by (rule dashboard_Inr_index)
  have pk: "maximum ?xs = Fin p"
    using assms(4) by (simp add: rep kpis_peak)
  have nn: "\<forall>y. Some y \<in> set ?xs \<longrightarrow> 0 \<le> y"
    using assms(3) by auto
  have lf: "load_factor rep = fmul (fdiv (avg_consumption rep) (Fin p)) (Fin 100)"
    by (simp add: rep kpis_load_factor kpis_avg pk)
  have av: "not_negative (avg_consumption rep)"
    unfolding rep kpis_avg using maximum_Fin(1) [OF pk] nn by (rule mean_not_negative)
  have "not_negative (fdiv (avg_consumption rep) (Fin p))"
    using av \<open>0 < p\<close> by (rule not_negative_fdiv)
  then have "not_negative (fmul (fdiv (avg_consumption rep) (Fin p)) (Fin 100))"
    by (rule not_negative_fmul) simp
  then have l0: "not_negative (load_factor rep)"
    by (simp only: lf)
  show ?thesis
    using lf exact_mean_bounds [OF pk nn] av l0 unfolding not_negative_cases
    by (intro conjI)
qed

theorem C4_load_factor_range_witness:
  "dashboard example_df ''PJM_MW'' (2020, 1, 1) (2021, 1, 1) = Inr (kpis 0 (rows example_df))
   \<and> index_of ''PJM_MW'' (vcols example_df) = Some 0
   \<and> map (float_at 0) (filtered_df example_df (2020, 1, 1) (2021, 1, 1))
       = [Some 80, Some 100, Some 120]
   \<and> peak_consumption (kpis 0 (rows example_df)) = Fin 120
   \<and> load_factor (kpis 0 (rows example_df))
       = fmul (fdiv (avg_consumption (kpis 0 (rows example_df))) (Fin 120)) (Fin 100)
   \<and> (load_factor (kpis 0 (rows example_df)) = PInf
        \<or> (\<exists>x. load_factor (kpis 0 (rows example_df)) = Fin x \<and> 0 \<le> x))"
proof -
  have nn: "\<forall>r \<in> set (filtered_df example_df (2020, 1, 1) (2021, 1, 1)).
         \<forall>x. float_at 0 r = Some x \<longrightarrow> 0 \<le> x"
    unfolding example_filtered by (simp add: example_df_def float_at_def)
  have vs: "map (float_at 0) (filtered_df example_df (2020, 1, 1) (2021, 1, 1))
       = [Some 80, Some 100, Some 120]"
    unfolding example_filtered by (simp add: example_df_def float_at_def)
  have pos: "(0::real) < 120" by simp
  note t = C4_load_factor_range [OF example_dashboard example_index nn example_peak pos]
  show ?thesis
    using t by (intro conjI example_dashboard example_index vs example_peak) blast+
qed

text \<open>
  The claim as stated fails by rounding. Three readings of 0.1 sum to a float64 above
  three tenths: the average is above the peak and the load factor is
  100.00000000000003.
\<close>

theorem C4_counterexample:
  "round64 (1 / 10) = Fin tenth
   \<and> map (float_at 0) (filtered_df tenth_df (2021, 1, 1) (2021, 1, 1))
       = [Some tenth, Some tenth, Some tenth]
   \<and> dashboard tenth_df ''PJM_MW'' (2021, 1, 1) (2021, 1, 1) = Inr (kpis 0 (rows tenth_df))
   \<and> peak_consumption (kpis 0 (rows tenth_df)) = Fin tenth
   \<and> avg_consumption (kpis 0 (rows tenth_df)) = Fin (7205759403792795 / 72057594037927936)
   \<and> tenth < 7205759403792795 / 72057594037927936
   \<and> load_factor (kpis 0 (rows tenth_df)) = Fin (3518437208883201 / 35184372088832)
   \<and> (100 :: real) < 3518437208883201 / 35184372088832"
proof -
  have v: "map (float_at 0) (filtered_df tenth_df (2021, 1, 1) (2021, 1, 1))
       = [Some tenth, Some tenth, Some tenth]"
    unfolding tenth_filtered by (rule tenth_values)
  have a: "tenth < 7205759403792795 / 72057594037927936"
    by (simp add: tenth_def)
  have b: "(100 :: real) < 3518437208883201 / 35184372088832"
    by simp
  show ?thesis
    by (intro conjI tenth_nearest v tenth_dashboard tenth_kpis(2) tenth_kpis(1) a
        tenth_kpis(3) b)
qed

text \<open>
  C7. The yearly table is produced exactly when the filtered window holds more than one
  distinct year. When it is produced it has one line for each year of the window, in
  ascending order, with the mean of the selected column over the rows of that year.
\<close>

theorem C7_yearly_when_several_years:
  assumes "dashboard df selected_column start_date end_date = Inr rep"
    and "index_of selected_column (vcols df) = Some i"
  shows "(yearly_avg rep \<noteq> None
            \<longleftrightarrow> 1 < card (Year ` set (filtered_df df start_date end_date)))
       \<and> (\<forall>t. yearly_avg rep = Some t \<longrightarrow>
             map fst t = sorted_list_of_set (Year ` set (filtered_df df start_date end_date))
           \<and> (\<forall>y m. (y, m) \<in> set t \<longrightarrow>
                 m = mean (map (float_at i)
                       (filter (\<lambda>r. Year r = y) (filtered_df df start_date end_date)))))"
proof -
  let ?f = "filtered_df df start_date end_date"
  have rep: "rep = kpis i ?f"
    using assms by (rule dashboard_Inr_index)
  have c: "length (remdups (map Year ?f)) = card (Year ` set ?f)"
    by (simp add: length_remdups_card_conv)
  have p1: "yearly_avg rep \<noteq> None \<longleftrightarrow> 1 < card (Year ` set ?f)"
    by (simp add: rep kpis_yearly c)
  have p2: "map fst t = sorted_list_of_set (Year ` set ?f)
           \<and> (\<forall>y m. (y, m) \<in> set t \<longrightarrow> m = mean (map (float_at i) (filter (\<lambda>r. Year r = y) ?f)))"
    if t: "yearly_avg rep = Some t" for t
  proof -
    from t have tt: "t = group_mean i (groupby Year ?f)"
      by (simp add: rep kpis_yearly split: if_splits)
    have k: "map fst t = sorted_list_of_set (Year ` set ?f)"
      unfolding tt group_mean_keys groupby_keys
      by (simp add: sorted_list_of_set_sort_remdups [symmetric])
    have v: "m = mean (map (float_at i) (filter (\<lambda>r. Year r = y) ?f))"
      if "(y, m) \<in> set t" for y m
      using that unfolding tt by (auto simp: group_mean_def groupby_def)
    show ?thesis using k v by blast
  qed
  show ?thesis using p1 p2 by blast
qed

theorem C7_yearly_when_several_years_witness:
  "dashboard example_df ''PJM_MW'' (2020, 1, 1) (2021, 1, 1) = Inr (kpis 0 (rows example_df))
   \<and> index_of ''PJM_MW'' (vcols example_df) = Some 0
   \<and> 1 < card (Year ` set (filtered_df example_df (2020, 1, 1) (2021, 1, 1)))
   \<and> yearly_avg (kpis 0 (rows example_df)) \<noteq> None"
proof -
  note t = C7_yearly_when_several_years [OF example_dashboard example_index]
  have c: "1 < card (Year ` set (filtered_df example_df (2020, 1, 1) (2021, 1, 1)))"
    unfolding example_filtered example_years by simp
  from t c have y: "yearly_avg (kpis 0 (rows example_df)) \<noteq> None"
    by blast
  show ?thesis
    by (intro conjI example_dashboard example_index c y)
qed

end
